theory Spec2Isabelle
  imports Main "HOL-Library.Char_ord" "HOL-Library.List_Lexorder"
begin

text \<open>
  A model of \<^verbatim>\<open>main.py\<close> of json_to_csv: the Flattener (\<^verbatim>\<open>flatten_json\<close>), the Tabular Appender
  (\<^verbatim>\<open>append_flattened_to_csv\<close>), the Document Router (\<^verbatim>\<open>process_files_in_folder\<close>) and the Run
  Ledger (\<^verbatim>\<open>update_control_file\<close>, \<^verbatim>\<open>main\<close>). Every function keeps its name and the order of
  its steps. An exception is a value \<open>Inl e\<close>; a function that touches files or the clock
  takes the state and returns the new one together with its outcome, so that what it had
  done before it raised is kept.
\<close>

section \<open>JSON values and Python dictionaries\<close>

text \<open>
  The values \<^verbatim>\<open>json.load\<close> returns. An object is a Python \<^verbatim>\<open>dict\<close>: an association list
  that keeps insertion order and holds every key once. A floating-point number is kept as
  its literal, since nothing in the program computes with it.
\<close>

datatype json =
    JNull
  | JBool bool
  | JInt int
  | JFloat string
  | JString string
  | JArray "json list"
  | JObject "(string \<times> json) list"

type_synonym dict = "(string \<times> json) list"

datatype error = AttributeError | JSONDecodeError | FileNotFoundError | ValueError | OSError

text \<open>\<^verbatim>\<open>d[k] = v\<close>: a key already present keeps its position and takes the new value, a new
  key goes to the end.\<close>

definition setitem :: "dict \<Rightarrow> string \<Rightarrow> json \<Rightarrow> dict" where
  "setitem d k v =
     (if k \<in> fst ` set d then map (\<lambda>(k', v'). if k' = k then (k', v) else (k', v')) d
      else d @ [(k, v)])"

text \<open>\<^verbatim>\<open>dict(items)\<close>: the pairs are stored one after the other.\<close>

definition dict_of :: "(string \<times> json) list \<Rightarrow> dict" where
  "dict_of items = foldl (\<lambda>d (k, v). setitem d k v) [] items"

text \<open>\<^verbatim>\<open>d.get(k, default)\<close> on a dict, and the same call on any value: only a dict has
  the method.\<close>

definition dict_get :: "dict \<Rightarrow> string \<Rightarrow> json \<Rightarrow> json" where
  "dict_get d k dflt = (case map_of d k of None \<Rightarrow> dflt | Some v \<Rightarrow> v)"

definition get :: "json \<Rightarrow> string \<Rightarrow> json \<Rightarrow> error + json" where
  "get obj k dflt =
     (case obj of JObject d \<Rightarrow> Inr (dict_get d k dflt) | _ \<Rightarrow> Inl AttributeError)"

text \<open>\<^verbatim>\<open>str(i)\<close> for a list index.\<close>

fun str_nat :: "nat \<Rightarrow> string" where
  "str_nat n =
     (if n < 10 then [char_of (48 + n)]
      else str_nat (n div 10) @ [char_of (48 + n mod 10)])"

declare str_nat.simps [simp del]

section \<open>The Flattener\<close>

text \<open>
  \<^verbatim>\<open>flatten_json(json_object, parent_key, separator)\<close>. \<open>flatten_entries\<close> is the loop over
  \<^verbatim>\<open>json_object.items()\<close> and returns the list \<^verbatim>\<open>items\<close> it collects; \<open>flatten_elems\<close> is the
  loop over \<^verbatim>\<open>enumerate(v)\<close>. Calling \<^verbatim>\<open>.items()\<close> on a value that is not a dict raises
  \<^verbatim>\<open>AttributeError\<close>.
\<close>

function flatten_json :: "json \<Rightarrow> string \<Rightarrow> string \<Rightarrow> error + dict"
  and flatten_entries :: "(string \<times> json) list \<Rightarrow> string \<Rightarrow> string \<Rightarrow> error + (string \<times> json) list"
  and flatten_elems :: "json list \<Rightarrow> nat \<Rightarrow> string \<Rightarrow> string \<Rightarrow> error + (string \<times> json) list"
where
  "flatten_json json_object parent_key separator =
     (case json_object of
        JObject entries \<Rightarrow>
          (case flatten_entries entries parent_key separator of
             Inl e \<Rightarrow> Inl e
           | Inr items \<Rightarrow> Inr (dict_of items))
      | _ \<Rightarrow> Inl AttributeError)"
| "flatten_entries [] parent_key separator = Inr []"
| "flatten_entries ((k, v) # rest) parent_key separator =
     (let new_key = (if parent_key \<noteq> [] then parent_key @ separator @ k else k) in
      case (case v of
              JObject entries \<Rightarrow> flatten_json (JObject entries) new_key separator
            | JArray elems \<Rightarrow> flatten_elems elems 0 new_key separator
            | _ \<Rightarrow> Inr [(new_key, v)]) of
        Inl e \<Rightarrow> Inl e
      | Inr items \<Rightarrow>
          (case flatten_entries rest parent_key separator of
             Inl e \<Rightarrow> Inl e
           | Inr items' \<Rightarrow> Inr (items @ items')))"
| "flatten_elems [] i new_key separator = Inr []"
| "flatten_elems (item # rest) i new_key separator =
     (case flatten_json item (new_key @ ''['' @ str_nat i @ '']'') separator of
        Inl e \<Rightarrow> Inl e
      | Inr items \<Rightarrow>
          (case flatten_elems rest (i + 1) new_key separator of
             Inl e \<Rightarrow> Inl e
           | Inr items' \<Rightarrow> Inr (items @ items')))"
  by pat_completeness auto
termination
  by (relation "measure (\<lambda>x. case x of
          Inl (j, _, _) \<Rightarrow> 2 * size j + 1
        | Inr (Inl (kvs, _, _)) \<Rightarrow> 2 * size_list (size_prod (\<lambda>_. 0) size) kvs
        | Inr (Inr (xs, _, _, _)) \<Rightarrow> 2 * size_list size xs)") auto

section \<open>Storage, clock and the order of effects\<close>

text \<open>
  The program works on tabular files (rows of cells), on the JSON files of the intake
  folder and on the wall clock. \<open>tables\<close> maps a path to the rows of the CSV file there;
  \<open>documents\<close> maps a path to what \<^verbatim>\<open>json.load\<close> makes of the file there (\<open>None\<close> when the
  text does not parse); \<open>listdir\<close> is \<^verbatim>\<open>os.listdir\<close>, \<open>None\<close> for a folder that cannot be listed;
  the \<open>i\<close>-th call of \<^verbatim>\<open>datetime.now()\<close> returns \<open>clock i\<close>, whatever the clock shows then.
  \<open>trace\<close> lists the effectful calls in the order they complete: \<open>Emit filename data numero_control\<close> for a call of the Tabular Appender with the
  record as the caller passed it, \<open>Move src dst\<close> for \<^verbatim>\<open>shutil.move\<close>, \<open>Now t\<close> for a reading of
  the clock, \<open>RunRecord control_file process_id start_date end_date status\<close> for a call of
  \<^verbatim>\<open>update_control_file\<close>.
  Directories are not kept. Whether a storage call succeeds is an input: \<open>makedirs_ok f\<close>
  says that \<^verbatim>\<open>os.makedirs(f, exist_ok=True)\<close> returns, \<open>openable f\<close> that the control file \<open>f\<close> can
  be opened for append; a call that does not succeed raises \<^verbatim>\<open>OSError\<close>. A group's file lies
  in the output folder, which the router has made before it writes: opening it for append
  is taken to succeed. Tabular files and documents are kept apart: no path names both.
  Console output is outside the model.
\<close>

record datetime =
  year :: nat
  month :: nat
  day :: nat
  hour :: nat
  minute :: nat
  second :: nat

datatype event =
    Emit string dict json
  | Move string string
  | Now datetime
  | RunRecord string string string string string

record state =
  tables :: "string \<rightharpoonup> json list list"
  documents :: "string \<rightharpoonup> json option"
  listdir :: "string \<rightharpoonup> string list"
  makedirs_ok :: "string \<Rightarrow> bool"
  openable :: "string \<Rightarrow> bool"
  clock :: "nat \<Rightarrow> datetime"
  ticks :: nat
  trace :: "event list"

type_synonym 'a result = "(error + 'a) \<times> state"

definition exists :: "state \<Rightarrow> string \<Rightarrow> bool" where
  "exists s filename = (tables s filename \<noteq> None)"

definition contents :: "state \<Rightarrow> string \<Rightarrow> json list list" where
  "contents s filename = (case tables s filename of None \<Rightarrow> [] | Some rows \<Rightarrow> rows)"

text \<open>\<^verbatim>\<open>open(filename, 'a')\<close> creates a missing file and leaves an existing one as it is; a row
  written through the handle goes to the end.\<close>

definition open_append :: "string \<Rightarrow> state \<Rightarrow> state" where
  "open_append filename s = s\<lparr>tables := (tables s)(filename \<mapsto> contents s filename)\<rparr>"

definition write_line :: "string \<Rightarrow> json list \<Rightarrow> state \<Rightarrow> state" where
  "write_line filename row s = s\<lparr>tables := (tables s)(filename \<mapsto> contents s filename @ [row])\<rparr>"

definition log_event :: "event \<Rightarrow> state \<Rightarrow> state" where
  "log_event e s = s\<lparr>trace := trace s @ [e]\<rparr>"

subsection \<open>\<^verbatim>\<open>csv.DictWriter\<close>\<close>

text \<open>
  \<^verbatim>\<open>writerow(rowdict)\<close> raises \<^verbatim>\<open>ValueError\<close> when the dict has a key that is no field name,
  and otherwise writes \<^verbatim>\<open>rowdict.get(key, '')\<close> for each field name in turn.
  \<^verbatim>\<open>writeheader()\<close> is \<^verbatim>\<open>writerow(dict(zip(fieldnames, fieldnames)))\<close>.
\<close>

definition dict_to_list :: "string list \<Rightarrow> dict \<Rightarrow> error + json list" where
  "dict_to_list fieldnames rowdict =
     (if \<exists>k \<in> fst ` set rowdict. k \<notin> set fieldnames then Inl ValueError
      else Inr (map (\<lambda>key. dict_get rowdict key (JString [])) fieldnames))"

definition writerow :: "string \<Rightarrow> string list \<Rightarrow> dict \<Rightarrow> state \<Rightarrow> unit result" where
  "writerow filename fieldnames rowdict s =
     (case dict_to_list fieldnames rowdict of
        Inl e \<Rightarrow> (Inl e, s)
      | Inr row \<Rightarrow> (Inr (), write_line filename row s))"

definition writeheader :: "string \<Rightarrow> string list \<Rightarrow> state \<Rightarrow> unit result" where
  "writeheader filename fieldnames s =
     writerow filename fieldnames (dict_of (zip fieldnames (map JString fieldnames))) s"

section \<open>The Tabular Appender\<close>

text \<open>
  \<^verbatim>\<open>append_flattened_to_csv(data, filename, numero_control)\<close>, with the global \<^verbatim>\<open>process_id\<close>
  as a parameter. \<^verbatim>\<open>data\<close> is the caller's dict and the function assigns to two of its keys,
  so the dict as it is on return is part of the result.
\<close>

text \<open>\<^verbatim>\<open>sorted(keys)\<close>, where \<^verbatim>\<open>keys\<close> is the set of the record's keys with the two names added.
  Python orders strings by code point; the strings here are ordered by character code, a
  proper prefix first.\<close>

definition fieldnames_of :: "dict \<Rightarrow> string list" where
  "fieldnames_of data =
     sorted_list_of_set (insert ''processID'' (insert ''numeroControl'' (set (map fst data))))"

definition append_flattened_to_csv ::
  "string \<Rightarrow> dict \<Rightarrow> string \<Rightarrow> json \<Rightarrow> state \<Rightarrow> dict result" where
  "append_flattened_to_csv process_id data filename numero_control s =
     (let file_exists = exists s filename;
          fieldnames = fieldnames_of data;
          s1 = open_append filename s;
          (r, s2) = (if \<not> file_exists then writeheader filename fieldnames s1 else (Inr (), s1))
      in case r of
           Inl e \<Rightarrow> (Inl e, s2)
         | Inr _ \<Rightarrow>
             (let data1 = setitem data ''numeroControl'' numero_control;
                  data2 = setitem data1 ''processID'' (JString process_id)
              in case writerow filename fieldnames data2 s2 of
                   (Inl e, s3) \<Rightarrow> (Inl e, s3)
                 | (Inr _, s3) \<Rightarrow>
                     (Inr data2, log_event (Emit filename data numero_control) s3)))"

section \<open>The Document Router\<close>

text \<open>\<^verbatim>\<open>os.path.join(a, b)\<close> on POSIX and \<^verbatim>\<open>s.endswith(suf)\<close>.\<close>

definition path_join :: "string \<Rightarrow> string \<Rightarrow> string" where
  "path_join a b =
     (if take 1 b = ''/'' then b
      else if a = [] \<or> last a = CHR ''/'' then a @ b
      else a @ ''/'' @ b)"

definition endswith :: "string \<Rightarrow> string \<Rightarrow> bool" where
  "endswith s suf = (length suf \<le> length s \<and> drop (length s - length suf) s = suf)"

text \<open>\<^verbatim>\<open>json_data.items()\<close>: only a dict has the method.\<close>

definition items_of :: "json \<Rightarrow> error + (string \<times> json) list" where
  "items_of obj = (case obj of JObject d \<Rightarrow> Inr d | _ \<Rightarrow> Inl AttributeError)"

text \<open>\<^verbatim>\<open>json_data.get("identificacion", {}).get("numeroControl", "N/A")\<close>.\<close>

definition numero_control_of :: "json \<Rightarrow> error + json" where
  "numero_control_of json_data =
     (case get json_data ''identificacion'' (JObject []) of
        Inl e \<Rightarrow> Inl e
      | Inr identificacion \<Rightarrow> get identificacion ''numeroControl'' (JString ''N/A''))"

text \<open>A call of the Tabular Appender whose caller drops the dict afterwards, and the two
  lines \<^verbatim>\<open>flattened = flatten_json(x); append_flattened_to_csv(flattened, ...)\<close> that the
  router has twice.\<close>

definition emit :: "string \<Rightarrow> dict \<Rightarrow> string \<Rightarrow> json \<Rightarrow> state \<Rightarrow> unit result" where
  "emit process_id data filename numero_control s =
     (case append_flattened_to_csv process_id data filename numero_control s of
        (Inl e, s') \<Rightarrow> (Inl e, s')
      | (Inr _, s') \<Rightarrow> (Inr (), s'))"

definition flatten_and_append :: "string \<Rightarrow> json \<Rightarrow> string \<Rightarrow> json \<Rightarrow> state \<Rightarrow> unit result" where
  "flatten_and_append process_id x output_file numero_control s =
     (case flatten_json x [] ''.'' of
        Inl e \<Rightarrow> (Inl e, s)
      | Inr flattened \<Rightarrow> emit process_id flattened output_file numero_control s)"

text \<open>\<^verbatim>\<open>for item in value\<close>, the body of \<^verbatim>\<open>for key, value in json_data.items()\<close>, and that
  loop.\<close>

fun process_items :: "string \<Rightarrow> string \<Rightarrow> json list \<Rightarrow> string \<Rightarrow> json \<Rightarrow> state \<Rightarrow> unit result" where
  "process_items process_id key [] output_file numero_control s = (Inr (), s)"
| "process_items process_id key (item # rest) output_file numero_control s =
     (case (case item of
              JObject _ \<Rightarrow> flatten_and_append process_id item output_file numero_control s
            | _ \<Rightarrow> emit process_id [(key, item)] output_file numero_control s) of
        (Inl e, s') \<Rightarrow> (Inl e, s')
      | (Inr _, s') \<Rightarrow> process_items process_id key rest output_file numero_control s')"

definition process_entry :: "string \<Rightarrow> string \<Rightarrow> string \<Rightarrow> json \<Rightarrow> json \<Rightarrow> state \<Rightarrow> unit result" where
  "process_entry process_id output_folder key v numero_control s =
     (let output_file = path_join output_folder (key @ ''.csv'') in
      case (case v of
              JObject _ \<Rightarrow> flatten_and_append process_id v output_file numero_control s
            | JArray elems \<Rightarrow> process_items process_id key elems output_file numero_control s
            | _ \<Rightarrow> emit process_id [(key, v)] output_file numero_control s) of
        (Inl e, s') \<Rightarrow> (Inl e, s')
      | (Inr _, s') \<Rightarrow>
          (if key = ''cuerpo documento'' then emit process_id [] output_file numero_control s'
           else (Inr (), s')))"

fun process_entries :: "string \<Rightarrow> string \<Rightarrow> (string \<times> json) list \<Rightarrow> json \<Rightarrow> state \<Rightarrow> unit result" where
  "process_entries process_id output_folder [] numero_control s = (Inr (), s)"
| "process_entries process_id output_folder ((key, v) # rest) numero_control s =
     (case process_entry process_id output_folder key v numero_control s of
        (Inl e, s') \<Rightarrow> (Inl e, s')
      | (Inr _, s') \<Rightarrow> process_entries process_id output_folder rest numero_control s')"

text \<open>\<^verbatim>\<open>shutil.move(src, dst)\<close>.\<close>

definition move :: "string \<Rightarrow> string \<Rightarrow> state \<Rightarrow> unit result" where
  "move src dst s =
     (case documents s src of
        None \<Rightarrow> (Inl FileNotFoundError, s)
      | Some doc \<Rightarrow>
          (Inr (), log_event (Move src dst)
                     (s\<lparr>documents := ((documents s)(src := None))(dst \<mapsto> doc)\<rparr>)))"

text \<open>The body of \<^verbatim>\<open>for filename in os.listdir(input_folder)\<close> for a name that ends in
  \<^verbatim>\<open>.json\<close>, then the loop, then \<^verbatim>\<open>process_files_in_folder\<close>.\<close>

definition process_file :: "string \<Rightarrow> string \<Rightarrow> string \<Rightarrow> string \<Rightarrow> string \<Rightarrow> state \<Rightarrow> unit result" where
  "process_file process_id input_folder output_folder processed_folder filename s =
     (let file_path = path_join input_folder filename in
      case documents s file_path of
        None \<Rightarrow> (Inl FileNotFoundError, s)
      | Some None \<Rightarrow> (Inl JSONDecodeError, s)
      | Some (Some json_data) \<Rightarrow>
          (case numero_control_of json_data of
             Inl e \<Rightarrow> (Inl e, s)
           | Inr numero_control \<Rightarrow>
               (case items_of json_data of
                  Inl e \<Rightarrow> (Inl e, s)
                | Inr entries \<Rightarrow>
                    (case process_entries process_id output_folder entries numero_control s of
                       (Inl e, s') \<Rightarrow> (Inl e, s')
                     | (Inr _, s') \<Rightarrow>
                         move file_path (path_join processed_folder filename) s'))))"

fun process_filenames ::
  "string \<Rightarrow> string \<Rightarrow> string \<Rightarrow> string \<Rightarrow> string list \<Rightarrow> state \<Rightarrow> unit result" where
  "process_filenames process_id input_folder output_folder processed_folder [] s = (Inr (), s)"
| "process_filenames process_id input_folder output_folder processed_folder (filename # rest) s =
     (if endswith filename ''.json'' then
        (case process_file process_id input_folder output_folder processed_folder filename s of
           (Inl e, s') \<Rightarrow> (Inl e, s')
         | (Inr _, s') \<Rightarrow>
             process_filenames process_id input_folder output_folder processed_folder rest s')
      else process_filenames process_id input_folder output_folder processed_folder rest s)"

text \<open>\<^verbatim>\<open>os.makedirs(folder, exist_ok=True)\<close>.\<close>

definition makedirs :: "string \<Rightarrow> state \<Rightarrow> unit result" where
  "makedirs folder s = (if makedirs_ok s folder then (Inr (), s) else (Inl OSError, s))"

definition process_files_in_folder :: "string \<Rightarrow> string \<Rightarrow> string \<Rightarrow> string \<Rightarrow> state \<Rightarrow> unit result" where
  "process_files_in_folder process_id input_folder output_folder processed_folder s =
     (case makedirs output_folder s of
        (Inl e, s1) \<Rightarrow> (Inl e, s1)
      | (Inr _, s1) \<Rightarrow>
          (case makedirs processed_folder s1 of
             (Inl e, s2) \<Rightarrow> (Inl e, s2)
           | (Inr _, s2) \<Rightarrow>
               (case listdir s2 input_folder of
                  None \<Rightarrow> (Inl FileNotFoundError, s2)
                | Some filenames \<Rightarrow>
                    process_filenames process_id input_folder output_folder processed_folder
                      filenames s2)))"

section \<open>The Run Ledger\<close>

text \<open>\<^verbatim>\<open>datetime.now()\<close> and \<^verbatim>\<open>strftime('%Y-%m-%d %H:%M:%S')\<close>: each field as a decimal number
  padded with zeros to its width, as the library documents it. Only the six fields that
  the format prints are kept of a date and time.\<close>

definition now :: "state \<Rightarrow> datetime \<times> state" where
  "now s = (clock s (ticks s), log_event (Now (clock s (ticks s))) (s\<lparr>ticks := ticks s + 1\<rparr>))"

definition zfill :: "nat \<Rightarrow> string \<Rightarrow> string" where
  "zfill w s = replicate (w - length s) CHR ''0'' @ s"

definition strftime :: "datetime \<Rightarrow> string" where
  "strftime d =
     zfill 4 (str_nat (year d)) @ ''-'' @ zfill 2 (str_nat (month d)) @ ''-'' @
     zfill 2 (str_nat (day d)) @ '' '' @ zfill 2 (str_nat (hour d)) @ '':'' @
     zfill 2 (str_nat (minute d)) @ '':'' @ zfill 2 (str_nat (second d))"

definition update_control_file ::
  "string \<Rightarrow> string \<Rightarrow> string \<Rightarrow> string \<Rightarrow> string \<Rightarrow> state \<Rightarrow> unit result" where
  "update_control_file control_file process_id start_date end_date status s =
     (let file_exists = exists s control_file in
      if \<not> openable s control_file then (Inl OSError, s)
      else
        (let fieldnames = [''processID'', ''start_date'', ''end_date'', ''status''];
             s1 = open_append control_file s;
             (r, s2) = (if \<not> file_exists then writeheader control_file fieldnames s1
                        else (Inr (), s1))
         in case r of
              Inl e \<Rightarrow> (Inl e, s2)
            | Inr _ \<Rightarrow>
                (case writerow control_file fieldnames
                        [(''processID'', JString process_id), (''start_date'', JString start_date),
                         (''end_date'', JString end_date), (''status'', JString status)] s2 of
                   (Inl e, s3) \<Rightarrow> (Inl e, s3)
                 | (Inr _, s3) \<Rightarrow>
                     (Inr (), log_event
                        (RunRecord control_file process_id start_date end_date status) s3))))"

text \<open>\<^verbatim>\<open>main()\<close>, with the four configured paths and the global \<^verbatim>\<open>process_id\<close> as
  parameters. \<^verbatim>\<open>except Exception\<close> catches every error of the model that the folder
  processing raises; \<^verbatim>\<open>update_control_file\<close> is called after the \<^verbatim>\<open>try\<close> statement, so what it
  raises leaves \<^verbatim>\<open>main\<close>.\<close>

definition main :: "string \<Rightarrow> string \<Rightarrow> string \<Rightarrow> string \<Rightarrow> string \<Rightarrow> state \<Rightarrow> unit result" where
  "main process_id input_folder output_folder processed_folder control_file s =
     (let (t0, s1) = now s;
          start_date = strftime t0;
          (r, s2) = process_files_in_folder process_id input_folder output_folder
                      processed_folder s1;
          status = (case r of Inr _ \<Rightarrow> ''Success'' | Inl e \<Rightarrow> ''Failed'');
          (t1, s3) = now s2;
          end_date = strftime t1
      in update_control_file control_file process_id start_date end_date status s3)"

section \<open>Notions used in the statements\<close>

text \<open>A leaf of a document, and an object.\<close>

definition is_scalar :: "json \<Rightarrow> bool" where
  "is_scalar v = (case v of JObject _ \<Rightarrow> False | JArray _ \<Rightarrow> False | _ \<Rightarrow> True)"

definition is_object :: "json \<Rightarrow> bool" where
  "is_object v = (case v of JObject _ \<Rightarrow> True | _ \<Rightarrow> False)"

text \<open>The record after the two assignments of the Tabular Appender, and the row
  \<^verbatim>\<open>writerow\<close> makes of it.\<close>

definition injected :: "string \<Rightarrow> dict \<Rightarrow> json \<Rightarrow> dict" where
  "injected process_id data numero_control =
     setitem (setitem data ''numeroControl'' numero_control) ''processID'' (JString process_id)"

definition row_of :: "string \<Rightarrow> dict \<Rightarrow> json \<Rightarrow> json list" where
  "row_of process_id data numero_control =
     map (\<lambda>key. dict_get (injected process_id data numero_control) key (JString []))
       (fieldnames_of data)"

text \<open>The state after a call of the Tabular Appender that returns normally.\<close>

definition after_append :: "string \<Rightarrow> dict \<Rightarrow> string \<Rightarrow> json \<Rightarrow> state \<Rightarrow> state" where
  "after_append process_id data filename numero_control s =
     s\<lparr>tables := (tables s)(filename \<mapsto>
          (case tables s filename of
             None \<Rightarrow> [map JString (fieldnames_of data)]
           | Some rows \<Rightarrow> rows) @ [row_of process_id data numero_control]),
       trace := trace s @ [Emit filename data numero_control]\<rparr>"

text \<open>Kinds of events.\<close>

definition is_emit :: "event \<Rightarrow> bool" where
  "is_emit e = (case e of Emit _ _ _ \<Rightarrow> True | _ \<Rightarrow> False)"

definition is_move :: "event \<Rightarrow> bool" where
  "is_move e = (case e of Move _ _ \<Rightarrow> True | _ \<Rightarrow> False)"

definition is_run_record :: "event \<Rightarrow> bool" where
  "is_run_record e = (case e of RunRecord _ _ _ _ _ \<Rightarrow> True | _ \<Rightarrow> False)"

text \<open>From \<open>s\<close> to \<open>s'\<close> the events \<open>evs\<close> were added to the trace and the clock was not read;
  \<open>emits\<close>: these events are calls of the Tabular Appender and no document was touched.\<close>

definition steps :: "state \<Rightarrow> event list \<Rightarrow> state \<Rightarrow> bool" where
  "steps s evs s' =
     (trace s' = trace s @ evs \<and> clock s' = clock s \<and> ticks s' = ticks s \<and>
      listdir s' = listdir s \<and> makedirs_ok s' = makedirs_ok s \<and> openable s' = openable s)"

definition emits :: "state \<Rightarrow> event list \<Rightarrow> state \<Rightarrow> bool" where
  "emits s evs s' = (steps s evs s' \<and> list_all is_emit evs \<and> documents s' = documents s)"

text \<open>Events of the batch itself: calls of the Tabular Appender and moves.\<close>

definition io_events :: "event list \<Rightarrow> bool" where
  "io_events evs = list_all (\<lambda>e. is_emit e \<or> is_move e) evs"

text \<open>A date and time that \<^verbatim>\<open>datetime.now()\<close> can return, with a year of four digits.\<close>

definition valid_datetime :: "datetime \<Rightarrow> bool" where
  "valid_datetime d =
     (1000 \<le> year d \<and> year d \<le> 9999 \<and> 1 \<le> month d \<and> month d \<le> 12 \<and>
      1 \<le> day d \<and> day d \<le> 31 \<and> hour d < 24 \<and> minute d < 60 \<and> second d < 60)"


text \<open>\<open>a\<close> is not later than \<open>b\<close>.\<close>

definition dt_le :: "datetime \<Rightarrow> datetime \<Rightarrow> bool" where
  "dt_le a b =
     (year a < year b \<or> year a = year b \<and>
     (month a < month b \<or> month a = month b \<and>
     (day a < day b \<or> day a = day b \<and>
     (hour a < hour b \<or> hour a = hour b \<and>
     (minute a < minute b \<or> minute a = minute b \<and> second a \<le> second b)))))"


text \<open>The shape \<^verbatim>\<open>YYYY-MM-DD HH:MM:SS\<close>: in the pattern, \<^verbatim>\<open>d\<close> stands for a decimal digit and
  every other character for itself.\<close>

definition is_digit :: "char \<Rightarrow> bool" where
  "is_digit c = (CHR ''0'' \<le> c \<and> c \<le> CHR ''9'')"

fun matches :: "string \<Rightarrow> string \<Rightarrow> bool" where
  "matches [] [] = True"
| "matches (p # ps) (c # cs) = ((if p = CHR ''d'' then is_digit c else c = p) \<and> matches ps cs)"
| "matches _ _ = False"

definition timestamp_format :: "string \<Rightarrow> bool" where
  "timestamp_format t = matches ''dddd-dd-dd dd:dd:dd'' t"


text \<open>A decimal digit as a character, and a number below 100 as two digits.\<close>

definition digit :: "nat \<Rightarrow> char" where
  "digit n = char_of (48 + n)"

definition two :: "nat \<Rightarrow> string" where
  "two n = [digit (n div 10), digit (n mod 10)]"

text \<open>A state with no file at all, where every folder is empty and every storage call
  succeeds, and whose clock advances by a second at each reading.\<close>

definition no_files :: state where
  "no_files =
     \<lparr>tables = Map.empty, documents = Map.empty, listdir = (\<lambda>_. Some []),
      makedirs_ok = (\<lambda>_. True), openable = (\<lambda>_. True),
      clock = (\<lambda>i. \<lparr>year = 2024, month = 1, day = 2, hour = 3, minute = 4, second = i mod 60\<rparr>),
      ticks = 0, trace = []\<rparr>"

text \<open>A clock that shows 01:59:59 at its first reading and 01:00:01 of the same day from
  then on, as a local clock does when it is set back by an hour; and a store where no
  control file can be opened.\<close>

definition clock_steps_back :: "nat \<Rightarrow> datetime" where
  "clock_steps_back i =
     (if i = 0 then \<lparr>year = 2024, month = 11, day = 3, hour = 1, minute = 59, second = 59\<rparr>
      else \<lparr>year = 2024, month = 11, day = 3, hour = 1, minute = 0, second = 1\<rparr>)"

definition never :: "string \<Rightarrow> bool" where
  "never f = False"

section \<open>Dictionaries\<close>

lemma setitem_fresh: "k \<notin> fst ` set d \<Longrightarrow> setitem d k v = d @ [(k, v)]"
  by (simp add: setitem_def)

lemma keys_setitem: "fst ` set (setitem d k v) = insert k (fst ` set d)"
  by (auto simp: setitem_def image_iff split: if_splits) force+

lemma map_fst_setitem_present:
  "k \<in> fst ` set d \<Longrightarrow> map fst (setitem d k v) = map fst d"
  by (induction d) (auto simp: setitem_def)

lemma distinct_setitem: "distinct (map fst d) \<Longrightarrow> distinct (map fst (setitem d k v))"
proof (cases "k \<in> fst ` set d")
  case True
  assume "distinct (map fst d)"
  with True show ?thesis by (simp add: map_fst_setitem_present)
next
  case False
  assume "distinct (map fst d)"
  with False show ?thesis by (simp add: setitem_fresh)
qed

lemma map_of_replace:
  "map_of (map (\<lambda>(k', v'). if k' = k then (k', v) else (k', v')) d) x =
     (if x = k \<and> map_of d k \<noteq> None then Some v else map_of d x)"
  by (induction d) auto

lemma map_of_setitem: "map_of (setitem d k v) = (map_of d)(k \<mapsto> v)"
proof (cases "k \<in> fst ` set d")
  case True
  then have "map_of d k \<noteq> None" by (simp add: map_of_eq_None_iff)
  with True show ?thesis by (auto simp: setitem_def map_of_replace fun_eq_iff)
next
  case False
  then have "map_of d k = None" by (simp add: map_of_eq_None_iff)
  with False show ?thesis
    by (auto simp: setitem_fresh fun_eq_iff map_add_def split: option.splits)
qed

lemma foldl_setitem_distinct:
  "distinct (map fst (d @ items)) \<Longrightarrow> foldl (\<lambda>d (k, v). setitem d k v) d items = d @ items"
proof (induction items arbitrary: d)
  case Nil
  then show ?case by simp
next
  case (Cons kv items)
  obtain k v where kv: "kv = (k, v)" by (cases kv)
  from Cons.prems kv have fresh: "k \<notin> fst ` set d" by auto
  from Cons.prems kv have "distinct (map fst ((d @ [(k, v)]) @ items))" by simp
  then have "foldl (\<lambda>d (k, v). setitem d k v) (d @ [(k, v)]) items = (d @ [(k, v)]) @ items"
    by (rule Cons.IH)
  with fresh kv show ?case by (simp add: setitem_fresh)
qed

lemma dict_of_distinct: "distinct (map fst items) \<Longrightarrow> dict_of items = items"
  using foldl_setitem_distinct [of "[]" items] by (simp add: dict_of_def)

lemma foldl_setitem_props:
  "distinct (map fst d) \<Longrightarrow>
     distinct (map fst (foldl (\<lambda>d (k, v). setitem d k v) d items)) \<and>
     map_of (foldl (\<lambda>d (k, v). setitem d k v) d items) = map_of d ++ map_of (rev items)"
proof (induction items arbitrary: d)
  case Nil
  then show ?case by simp
next
  case (Cons kv items)
  obtain k v where kv: "kv = (k, v)" by (cases kv)
  from Cons.prems have "distinct (map fst (setitem d k v))" by (rule distinct_setitem)
  from Cons.IH [OF this] kv show ?case
    by (simp add: map_of_setitem map_add_def fun_eq_iff split: option.splits)
qed

lemma distinct_dict_of: "distinct (map fst (dict_of items))"
  using foldl_setitem_props [of "[]" items] by (simp add: dict_of_def)

lemma map_of_dict_of: "map_of (dict_of items) = map_of (rev items)"
  using foldl_setitem_props [of "[]" items] by (simp add: dict_of_def)

lemma flatten_entries_flat:
  "\<forall>v \<in> snd ` set m. is_scalar v \<Longrightarrow> flatten_entries m [] separator = Inr m"
  by (induction m) (auto simp: is_scalar_def split: json.splits)

section \<open>The Tabular Appender writes one row\<close>

lemma set_fieldnames_of:
  "set (fieldnames_of data) = insert ''processID'' (insert ''numeroControl'' (fst ` set data))"
proof -
  have "finite (insert ''processID'' (insert ''numeroControl'' (set (map fst data))))"
    by simp
  then show ?thesis
    unfolding fieldnames_of_def by (simp only: set_sorted_list_of_set set_map)
qed

lemma sorted_fieldnames_of: "sorted (fieldnames_of data)"
  unfolding fieldnames_of_def by (rule sorted_sorted_list_of_set)

lemma distinct_fieldnames_of: "distinct (fieldnames_of data)"
  unfolding fieldnames_of_def by (rule distinct_sorted_list_of_set)

lemma dict_to_list_ok:
  "fst ` set rowdict \<subseteq> set fieldnames \<Longrightarrow>
     dict_to_list fieldnames rowdict =
       Inr (map (\<lambda>key. dict_get rowdict key (JString [])) fieldnames)"
  by (auto simp: dict_to_list_def)

lemma header_row:
  "map (\<lambda>key. dict_get (zip fieldnames (map JString fieldnames)) key (JString [])) fieldnames =
     map JString fieldnames"
  by (simp add: dict_get_def map_of_zip_map)

lemma writeheader_eq:
  assumes "distinct fieldnames"
  shows "writeheader filename fieldnames s =
           (Inr (), write_line filename (map JString fieldnames) s)"
proof -
  have "dict_of (zip fieldnames (map JString fieldnames)) = zip fieldnames (map JString fieldnames)"
    using assms by (simp add: dict_of_distinct)
  moreover have "dict_to_list fieldnames (zip fieldnames (map JString fieldnames)) =
      Inr (map JString fieldnames)"
  proof -
    have "fst ` set (zip fieldnames (map JString fieldnames)) \<subseteq> set fieldnames"
      by (auto dest: set_zip_leftD)
    then show ?thesis by (simp only: dict_to_list_ok header_row)
  qed
  ultimately show ?thesis by (simp add: writeheader_def writerow_def)
qed

lemma writerow_injected:
  "writerow filename (fieldnames_of data) (injected process_id data numero_control) s =
     (Inr (), write_line filename (row_of process_id data numero_control) s)"
  by (simp add: writerow_def dict_to_list_ok injected_def keys_setitem set_fieldnames_of row_of_def)

lemma append_flattened_to_csv_eq:
  "append_flattened_to_csv process_id data filename numero_control s =
     (Inr (injected process_id data numero_control),
      s\<lparr>tables := (tables s)(filename \<mapsto>
           (case tables s filename of
              None \<Rightarrow> [map JString (fieldnames_of data)]
            | Some rows \<Rightarrow> rows) @ [row_of process_id data numero_control]),
        trace := trace s @ [Emit filename data numero_control]\<rparr>)"
proof (cases "tables s filename")
  case None
  then show ?thesis
    using writerow_injected [of filename data process_id numero_control]
    by (simp add: append_flattened_to_csv_def exists_def writeheader_eq distinct_fieldnames_of
        injected_def open_append_def write_line_def contents_def log_event_def)
next
  case (Some rows)
  then show ?thesis
    using writerow_injected [of filename data process_id numero_control]
    by (simp add: append_flattened_to_csv_def exists_def
        injected_def open_append_def write_line_def contents_def log_event_def)
qed

lemma filter_setitem:
  assumes "\<And>v'. \<not> P (k, v')"
  shows "filter P (setitem d k v) = filter P d"
proof -
  have "filter P (map (\<lambda>(k', v'). if k' = k then (k', v) else (k', v')) d) = filter P d"
    using assms by (induction d) (auto split: if_splits)
  with assms show ?thesis by (simp add: setitem_def)
qed

lemma map_of_injected:
  "map_of (injected process_id data numero_control) =
     (map_of data)(''numeroControl'' \<mapsto> numero_control, ''processID'' \<mapsto> JString process_id)"
  by (simp add: injected_def map_of_setitem)

lemma emit_eq:
  "emit process_id data filename numero_control s =
     (Inr (), after_append process_id data filename numero_control s)"
  by (simp add: emit_def append_flattened_to_csv_eq after_append_def)

lemma row_of_empty: "row_of process_id [] numero_control = [numero_control, JString process_id]"
  by (simp add: row_of_def fieldnames_of_def injected_def setitem_def dict_get_def)

lemma tables_after_append:
  "tables (after_append process_id data filename numero_control s) filename =
     Some ((case tables s filename of
              None \<Rightarrow> [map JString (fieldnames_of data)]
            | Some rows \<Rightarrow> rows) @ [row_of process_id data numero_control])"
  by (simp add: after_append_def)

section \<open>The Document Router only appends, then moves\<close>

lemma trace_after_append [simp]:
  "trace (after_append process_id data filename numero_control s) =
     trace s @ [Emit filename data numero_control]"
  by (simp add: after_append_def)

lemma documents_after_append [simp]:
  "documents (after_append process_id data filename numero_control s) = documents s"
  by (simp add: after_append_def)

lemma clock_after_append [simp]:
  "clock (after_append process_id data filename numero_control s) = clock s"
  by (simp add: after_append_def)

lemma ticks_after_append [simp]:
  "ticks (after_append process_id data filename numero_control s) = ticks s"
  by (simp add: after_append_def)

lemma listdir_after_append [simp]:
  "listdir (after_append process_id data filename numero_control s) = listdir s"
  by (simp add: after_append_def)

lemma makedirs_ok_after_append [simp]:
  "makedirs_ok (after_append process_id data filename numero_control s) = makedirs_ok s"
  by (simp add: after_append_def)

lemma openable_after_append [simp]:
  "openable (after_append process_id data filename numero_control s) = openable s"
  by (simp add: after_append_def)

lemma emits_refl: "emits s [] s"
  by (simp add: emits_def steps_def)

lemma emits_trans: "emits s evs s1 \<Longrightarrow> emits s1 evs' s2 \<Longrightarrow> emits s (evs @ evs') s2"
  by (simp add: emits_def steps_def)

lemma emits_after_append:
  "emits s [Emit filename data numero_control]
     (after_append process_id data filename numero_control s)"
  by (simp add: emits_def steps_def is_emit_def)

lemma emit_emits:
  "emit process_id data filename numero_control s = (r, s') \<Longrightarrow> \<exists>evs. emits s evs s'"
  using emits_after_append by (fastforce simp: emit_eq)

lemma flatten_and_append_emits:
  "flatten_and_append process_id x filename numero_control s = (r, s') \<Longrightarrow> \<exists>evs. emits s evs s'"
  using emits_refl emit_emits by (auto simp: flatten_and_append_def split: sum.splits)

lemma process_items_emits:
  "process_items process_id key elems filename numero_control s = (r, s') \<Longrightarrow>
     \<exists>evs. emits s evs s'"
proof (induction elems arbitrary: s)
  case Nil
  then show ?case using emits_refl by auto
next
  case (Cons item rest)
  obtain r1 s1 where step:
    "(case item of
        JObject _ \<Rightarrow> flatten_and_append process_id item filename numero_control s
      | _ \<Rightarrow> emit process_id [(key, item)] filename numero_control s) = (r1, s1)"
    by (cases "(case item of
        JObject _ \<Rightarrow> flatten_and_append process_id item filename numero_control s
      | _ \<Rightarrow> emit process_id [(key, item)] filename numero_control s)")
  then obtain evs1 where e1: "emits s evs1 s1"
    using flatten_and_append_emits emit_emits by (cases item) fastforce+
  show ?case
  proof (cases r1)
    case (Inl e)
    with Cons.prems step e1 show ?thesis by auto
  next
    case (Inr u)
    with Cons.prems step have "process_items process_id key rest filename numero_control s1 = (r, s')"
      by simp
    from Cons.IH [OF this] obtain evs2 where "emits s1 evs2 s'" by blast
    with e1 show ?thesis using emits_trans by blast
  qed
qed

lemma process_entry_emits:
  assumes "process_entry process_id output_folder key v numero_control s = (r, s')"
  shows "\<exists>evs. emits s evs s'"
proof -
  let ?f = "path_join output_folder (key @ ''.csv'')"
  obtain r1 s1 where step:
    "(case v of
        JObject _ \<Rightarrow> flatten_and_append process_id v ?f numero_control s
      | JArray elems \<Rightarrow> process_items process_id key elems ?f numero_control s
      | _ \<Rightarrow> emit process_id [(key, v)] ?f numero_control s) = (r1, s1)"
    by (cases "(case v of
        JObject _ \<Rightarrow> flatten_and_append process_id v ?f numero_control s
      | JArray elems \<Rightarrow> process_items process_id key elems ?f numero_control s
      | _ \<Rightarrow> emit process_id [(key, v)] ?f numero_control s)")
  then obtain evs1 where e1: "emits s evs1 s1"
    using flatten_and_append_emits emit_emits process_items_emits by (cases v) fastforce+
  from assms have rest:
    "(case (r1, s1) of
        (Inl e, s') \<Rightarrow> (Inl e, s')
      | (Inr _, s') \<Rightarrow>
          (if key = ''cuerpo documento'' then emit process_id [] ?f numero_control s'
           else (Inr (), s'))) = (r, s')"
    unfolding process_entry_def Let_def step .
  show ?thesis
  proof (cases "\<exists>u. r1 = Inr u \<and> key = ''cuerpo documento''")
    case True
    with rest have "emit process_id [] ?f numero_control s1 = (r, s')" by auto
    then obtain evs2 where "emits s1 evs2 s'" using emit_emits by blast
    with e1 show ?thesis using emits_trans by blast
  next
    case False
    with rest have "s' = s1" by (cases r1) auto
    with e1 show ?thesis by blast
  qed
qed

lemma process_entries_emits:
  "process_entries process_id output_folder entries numero_control s = (r, s') \<Longrightarrow>
     \<exists>evs. emits s evs s'"
proof (induction entries arbitrary: s)
  case Nil
  then show ?case using emits_refl by auto
next
  case (Cons kv rest)
  obtain key v where kv: "kv = (key, v)" by (cases kv)
  obtain r1 s1 where step: "process_entry process_id output_folder key v numero_control s = (r1, s1)"
    by (cases "process_entry process_id output_folder key v numero_control s")
  then obtain evs1 where e1: "emits s evs1 s1" using process_entry_emits by blast
  show ?case
  proof (cases r1)
    case (Inl e)
    with Cons.prems kv step e1 show ?thesis by auto
  next
    case (Inr u)
    with Cons.prems kv step
    have "process_entries process_id output_folder rest numero_control s1 = (r, s')" by simp
    from Cons.IH [OF this] obtain evs2 where "emits s1 evs2 s'" by blast
    with e1 show ?thesis using emits_trans by blast
  qed
qed

lemma move_eq:
  "documents s src = Some doc \<Longrightarrow>
     move src dst s =
       (Inr (), s\<lparr>documents := ((documents s)(src := None))(dst \<mapsto> doc),
                  trace := trace s @ [Move src dst]\<rparr>)"
  by (simp add: move_def log_event_def)

lemma process_file_example:
  assumes "documents s (path_join input_folder filename) =
     Some (Some (JObject [(''x'', JObject [(''p'', JInt 1)]), (''y'', JArray [JInt 1, JInt 2]),
                          (''z'', JString ''s'')]))"
  shows "process_file process_id input_folder output_folder processed_folder filename s =
     move (path_join input_folder filename) (path_join processed_folder filename)
       (after_append process_id [(''z'', JString ''s'')] (path_join output_folder ''z.csv'') (JString ''N/A'')
       (after_append process_id [(''y'', JInt 2)] (path_join output_folder ''y.csv'') (JString ''N/A'')
       (after_append process_id [(''y'', JInt 1)] (path_join output_folder ''y.csv'') (JString ''N/A'')
       (after_append process_id [(''p'', JInt 1)] (path_join output_folder ''x.csv'') (JString ''N/A'')
          s))))"
  using assms
  by (simp add: process_file_def Let_def numero_control_of_def get_def dict_get_def items_of_def
      process_entry_def flatten_and_append_def emit_eq dict_of_def setitem_def)

section \<open>Timestamps\<close>

lemma div10_div10: "(n::nat) div 10 div 10 = n div 100"
  by (simp add: div_mult2_eq [symmetric])

lemma mod100_div10: "(n::nat) mod 100 div 10 = n div 10 mod 10"
proof -
  have "n mod 100 = 10 * (n div 10 mod 10) + n mod 10"
    using mod_mult2_eq [of n 10 10] by simp
  then show ?thesis by simp
qed

lemma mod100_mod10: "(n::nat) mod 100 mod 10 = n mod 10"
  by (simp add: mod_mod_cancel)

lemma lex10: "ra < 10 \<Longrightarrow> rb < 10 \<Longrightarrow>
  ((10::nat) * qa + ra < 10 * qb + rb \<longleftrightarrow> qa < qb \<or> qa = qb \<and> ra < rb)"
  by arith

lemma lex100: "ra < 100 \<Longrightarrow> rb < 100 \<Longrightarrow>
  ((100::nat) * qa + ra < 100 * qb + rb \<longleftrightarrow> qa < qb \<or> qa = qb \<and> ra < rb)"
  by arith

lemma less_by_tens:
  "(a::nat) < b \<longleftrightarrow> a div 10 < b div 10 \<or> a div 10 = b div 10 \<and> a mod 10 < b mod 10"
  using lex10 [of "a mod 10" "b mod 10" "a div 10" "b div 10"] by simp

lemma less_by_hundreds:
  "(a::nat) < b \<longleftrightarrow> a div 100 < b div 100 \<or> a div 100 = b div 100 \<and> a mod 100 < b mod 100"
  using lex100 [of "a mod 100" "b mod 100" "a div 100" "b div 100"] by simp

lemma eq_by_tens: "(a::nat) = b \<longleftrightarrow> a div 10 = b div 10 \<and> a mod 10 = b mod 10"
  by (metis div_mult_mod_eq)

lemma eq_by_hundreds: "(a::nat) = b \<longleftrightarrow> a div 100 = b div 100 \<and> a mod 100 = b mod 100"
  by (metis div_mult_mod_eq)

lemma str_nat_digit: "n < 10 \<Longrightarrow> str_nat n = [digit n]"
  by (simp add: str_nat.simps digit_def)

lemma str_nat_two: "10 \<le> n \<Longrightarrow> n < 100 \<Longrightarrow> str_nat n = two n"
  by (subst str_nat.simps) (simp add: str_nat_digit two_def digit_def)

lemma char_of_48: "char_of (48 :: nat) = CHR ''0''"
  by code_simp

lemma char_of_49: "char_of (49 :: nat) = CHR ''1''"
  by code_simp

lemma digit_0: "digit 0 = CHR ''0''"
  by (simp add: digit_def char_of_48)

lemma zfill_two: "n < 100 \<Longrightarrow> zfill 2 (str_nat n) = two n"
proof (cases "n < 10")
  case True
  then show ?thesis by (simp add: zfill_def str_nat_digit two_def digit_0 [symmetric])
next
  case False
  assume "n < 100"
  with False show ?thesis by (simp add: zfill_def str_nat_two two_def)
qed

lemma zfill_four:
  assumes "1000 \<le> n" "n < 10000"
  shows "zfill 4 (str_nat n) = two (n div 100) @ two (n mod 100)"
proof -
  have a: "str_nat (n div 100) = two (n div 100)"
    using assms by (intro str_nat_two) auto
  have n: "\<not> n div 10 < 10" "\<not> n < 10"
    using assms by auto
  have b: "str_nat (n div 10) = two (n div 100) @ [digit (n div 10 mod 10)]"
    using n a by (subst str_nat.simps) (simp add: digit_def div10_div10)
  have c: "str_nat n = two (n div 100) @ [digit (n div 10 mod 10), digit (n mod 10)]"
    using n b by (subst str_nat.simps) (simp add: digit_def)
  show ?thesis by (simp add: c zfill_def two_def mod100_div10 mod100_mod10)
qed

lemma strftime_valid:
  assumes "valid_datetime d"
  shows "strftime d =
     two (year d div 100) @ two (year d mod 100) @ CHR ''-'' # two (month d) @ CHR ''-'' #
     two (day d) @ CHR '' '' # two (hour d) @ CHR '':'' # two (minute d) @ CHR '':'' #
     two (second d)"
  using assms by (simp add: strftime_def valid_datetime_def zfill_two zfill_four)

lemma digit_less: "a < 10 \<Longrightarrow> b < 10 \<Longrightarrow> digit a < digit b \<longleftrightarrow> a < b"
  by (simp add: digit_def less_char_def)

lemma digit_eq: "a < 10 \<Longrightarrow> b < 10 \<Longrightarrow> digit a = digit b \<longleftrightarrow> a = b"
  using digit_less [of a b] digit_less [of b a] by (metis less_irrefl nat_neq_iff)

lemma is_digit_digit: "n < 10 \<Longrightarrow> is_digit (digit n)"
  by (simp add: is_digit_def digit_def less_eq_char_def)

lemma two_le:
  assumes "a < 100" "b < 100"
  shows "two a @ xs \<le> two b @ ys \<longleftrightarrow> a < b \<or> a = b \<and> xs \<le> ys"
proof -
  have d: "a div 10 < 10" "b div 10 < 10" "a mod 10 < 10" "b mod 10 < 10"
    using assms by auto
  have "two a @ xs \<le> two b @ ys \<longleftrightarrow>
     a div 10 < b div 10 \<or> a div 10 = b div 10 \<and>
       (a mod 10 < b mod 10 \<or> a mod 10 = b mod 10 \<and> xs \<le> ys)"
    using d by (simp add: two_def digit_less digit_eq)
  also have "\<dots> \<longleftrightarrow> a < b \<or> a = b \<and> xs \<le> ys"
    using less_by_tens [of a b] eq_by_tens [of a b] by blast
  finally show ?thesis .
qed

lemma strftime_le:
  assumes "valid_datetime a" "valid_datetime b"
  shows "strftime a \<le> strftime b \<longleftrightarrow> dt_le a b"
proof -
  have y: "year a div 100 < 100" "year b div 100 < 100" "year a mod 100 < 100" "year b mod 100 < 100"
    using assms by (auto simp: valid_datetime_def)
  have f: "month a < 100" "month b < 100" "day a < 100" "day b < 100" "hour a < 100" "hour b < 100"
    "minute a < 100" "minute b < 100" "second a < 100" "second b < 100"
    using assms by (auto simp: valid_datetime_def)
  let ?S = "\<lambda>d. two (second d)"
  let ?M = "\<lambda>d. two (minute d) @ CHR '':'' # ?S d"
  let ?H = "\<lambda>d. two (hour d) @ CHR '':'' # ?M d"
  let ?D = "\<lambda>d. two (day d) @ CHR '' '' # ?H d"
  let ?Mo = "\<lambda>d. two (month d) @ CHR ''-'' # ?D d"
  let ?Y = "\<lambda>d. two (year d mod 100) @ CHR ''-'' # ?Mo d"
  have l5: "?S a \<le> ?S b \<longleftrightarrow> second a \<le> second b"
    using two_le [of "second a" "second b" "[]" "[]"] f by auto
  have l4: "?M a \<le> ?M b \<longleftrightarrow> minute a < minute b \<or> minute a = minute b \<and> second a \<le> second b"
    using two_le [of "minute a" "minute b" "CHR '':'' # ?S a" "CHR '':'' # ?S b"] f l5 by simp
  have l3: "?H a \<le> ?H b \<longleftrightarrow> hour a < hour b \<or> hour a = hour b \<and> ?M a \<le> ?M b"
    using two_le [of "hour a" "hour b" "CHR '':'' # ?M a" "CHR '':'' # ?M b"] f by simp
  have l2: "?D a \<le> ?D b \<longleftrightarrow> day a < day b \<or> day a = day b \<and> ?H a \<le> ?H b"
    using two_le [of "day a" "day b" "CHR '' '' # ?H a" "CHR '' '' # ?H b"] f by simp
  have l1: "?Mo a \<le> ?Mo b \<longleftrightarrow> month a < month b \<or> month a = month b \<and> ?D a \<le> ?D b"
    using two_le [of "month a" "month b" "CHR ''-'' # ?D a" "CHR ''-'' # ?D b"] f by simp
  have l0: "?Y a \<le> ?Y b \<longleftrightarrow>
      year a mod 100 < year b mod 100 \<or> year a mod 100 = year b mod 100 \<and> ?Mo a \<le> ?Mo b"
    using two_le [of "year a mod 100" "year b mod 100" "CHR ''-'' # ?Mo a" "CHR ''-'' # ?Mo b"] y
    by simp
  have "strftime a \<le> strftime b \<longleftrightarrow>
      two (year a div 100) @ ?Y a \<le> two (year b div 100) @ ?Y b"
    by (simp only: strftime_valid [OF assms(1)] strftime_valid [OF assms(2)])
  also have "\<dots> \<longleftrightarrow>
      year a div 100 < year b div 100 \<or> year a div 100 = year b div 100 \<and> ?Y a \<le> ?Y b"
    using two_le [of "year a div 100" "year b div 100" "?Y a" "?Y b"] y by simp
  also have "\<dots> \<longleftrightarrow> year a < year b \<or> year a = year b \<and> ?Mo a \<le> ?Mo b"
    unfolding l0
    using less_by_hundreds [of "year a" "year b"] eq_by_hundreds [of "year a" "year b"] by blast
  also have "\<dots> \<longleftrightarrow> dt_le a b"
    unfolding l1 l2 l3 l4 dt_le_def ..
  finally show ?thesis .
qed

lemma strftime_format:
  assumes "valid_datetime d"
  shows "timestamp_format (strftime d)"
proof -
  have "\<And>n :: nat. n mod 10 < 10" by auto
  moreover have "year d div 100 div 10 < 10" "month d div 10 < 10" "day d div 10 < 10"
    "hour d div 10 < 10" "minute d div 10 < 10" "second d div 10 < 10" "year d mod 100 div 10 < 10"
    using assms by (auto simp: valid_datetime_def)
  ultimately show ?thesis
    by (simp add: strftime_valid [OF assms] timestamp_format_def two_def is_digit_digit)
qed

section \<open>The batch and the Run Ledger\<close>

lemma now_eq:
  "now s = (clock s (ticks s),
            s\<lparr>ticks := Suc (ticks s), trace := trace s @ [Now (clock s (ticks s))]\<rparr>)"
  by (simp add: now_def log_event_def)

lemma update_control_file_blocked:
  "\<not> openable s control_file \<Longrightarrow>
     update_control_file control_file process_id start_date end_date status s = (Inl OSError, s)"
  by (simp add: update_control_file_def Let_def)

lemma update_control_file_eq:
  assumes "openable s control_file"
  shows "update_control_file control_file process_id start_date end_date status s =
     (Inr (),
      s\<lparr>tables := (tables s)(control_file \<mapsto>
           (case tables s control_file of
              None \<Rightarrow> [map JString [''processID'', ''start_date'', ''end_date'', ''status'']]
            | Some rows \<Rightarrow> rows) @
           [[JString process_id, JString start_date, JString end_date, JString status]]),
        trace := trace s @ [RunRecord control_file process_id start_date end_date status]\<rparr>)"
proof -
  have w: "\<And>s0. writerow control_file [''processID'', ''start_date'', ''end_date'', ''status'']
      [(''processID'', JString process_id), (''start_date'', JString start_date),
       (''end_date'', JString end_date), (''status'', JString status)] s0 =
     (Inr (), write_line control_file
        [JString process_id, JString start_date, JString end_date, JString status] s0)"
    by (simp add: writerow_def dict_to_list_def dict_get_def)
  have h: "\<And>s0. writeheader control_file [''processID'', ''start_date'', ''end_date'', ''status''] s0 =
     (Inr (), write_line control_file
        (map JString [''processID'', ''start_date'', ''end_date'', ''status'']) s0)"
    by (rule writeheader_eq) simp
  show ?thesis
  proof (cases "tables s control_file")
    case None
    with assms show ?thesis
      by (simp add: update_control_file_def exists_def w h Let_def open_append_def write_line_def
          contents_def log_event_def)
  next
    case (Some rows)
    with assms show ?thesis
      by (simp add: update_control_file_def exists_def w Let_def open_append_def write_line_def
          contents_def log_event_def)
  qed
qed

lemma steps_trans: "steps s evs s1 \<Longrightarrow> steps s1 evs' s2 \<Longrightarrow> steps s (evs @ evs') s2"
  by (simp add: steps_def)

lemma process_file_steps:
  assumes "process_file process_id input_folder output_folder processed_folder filename s = (r, s')"
  shows "\<exists>evs. steps s evs s' \<and> io_events evs"
proof (cases "\<exists>json_data numero_control entries.
      documents s (path_join input_folder filename) = Some (Some json_data) \<and>
      numero_control_of json_data = Inr numero_control \<and> items_of json_data = Inr entries")
  case False
  with assms have "s' = s"
    by (auto simp: process_file_def Let_def split: option.splits sum.splits)
  then have "steps s [] s' \<and> io_events []" by (simp add: steps_def io_events_def)
  then show ?thesis by blast
next
  case True
  let ?src = "path_join input_folder filename"
  let ?dst = "path_join processed_folder filename"
  from True obtain json_data numero_control entries where
    doc: "documents s ?src = Some (Some json_data)" and
    nc: "numero_control_of json_data = Inr numero_control" and
    it: "items_of json_data = Inr entries" by blast
  obtain r1 s1 where pe: "process_entries process_id output_folder entries numero_control s = (r1, s1)"
    by (cases "process_entries process_id output_folder entries numero_control s")
  then obtain evs where ev: "emits s evs s1" using process_entries_emits by blast
  then have io: "io_events evs"
    by (simp add: emits_def io_events_def list_all_iff)
  from ev doc have d1: "documents s1 ?src = Some (Some json_data)" by (simp add: emits_def)
  show ?thesis
  proof (cases r1)
    case (Inl e)
    with assms doc nc it pe have "s' = s1" by (simp add: process_file_def Let_def)
    with ev io show ?thesis unfolding emits_def by blast
  next
    case (Inr u)
    with assms doc nc it pe move_eq [OF d1, of ?dst]
    have "s' = s1\<lparr>documents := ((documents s1)(?src := None))(?dst \<mapsto> Some json_data),
                   trace := trace s1 @ [Move ?src ?dst]\<rparr>"
      by (simp add: process_file_def Let_def)
    with ev have "steps s (evs @ [Move ?src ?dst]) s'"
      by (simp add: emits_def steps_def)
    moreover from io have "io_events (evs @ [Move ?src ?dst])"
      by (simp add: io_events_def is_move_def)
    ultimately show ?thesis by blast
  qed
qed

lemma process_filenames_steps:
  "process_filenames process_id input_folder output_folder processed_folder names s = (r, s') \<Longrightarrow>
     \<exists>evs. steps s evs s' \<and> io_events evs"
proof (induction names arbitrary: s)
  case Nil
  then have "steps s [] s' \<and> io_events []" by (simp add: steps_def io_events_def)
  then show ?case by blast
next
  case (Cons filename rest)
  show ?case
  proof (cases "endswith filename ''.json''")
    case False
    with Cons.prems
    have "process_filenames process_id input_folder output_folder processed_folder rest s = (r, s')"
      by simp
    then show ?thesis by (rule Cons.IH)
  next
    case True
    obtain r1 s1 where pf:
      "process_file process_id input_folder output_folder processed_folder filename s = (r1, s1)"
      by (cases "process_file process_id input_folder output_folder processed_folder filename s")
    then obtain evs1 where e1: "steps s evs1 s1" "io_events evs1"
      using process_file_steps by blast
    show ?thesis
    proof (cases r1)
      case (Inl e)
      with Cons.prems True pf have "s' = s1" by simp
      with e1 show ?thesis by blast
    next
      case (Inr u)
      with Cons.prems True pf
      have "process_filenames process_id input_folder output_folder processed_folder rest s1 = (r, s')"
        by simp
      from Cons.IH [OF this] obtain evs2 where e2: "steps s1 evs2 s'" "io_events evs2" by blast
      from e1 e2 have "steps s (evs1 @ evs2) s'" "io_events (evs1 @ evs2)"
        by (auto intro: steps_trans simp: io_events_def)
      then show ?thesis by blast
    qed
  qed
qed

lemma process_files_in_folder_blocked:
  assumes "\<not> makedirs_ok s output_folder \<or> \<not> makedirs_ok s processed_folder \<or>
     listdir s input_folder = None"
  shows "\<exists>e. process_files_in_folder process_id input_folder output_folder processed_folder s =
     (Inl e, s)"
  using assms by (auto simp: process_files_in_folder_def makedirs_def)

lemma process_files_in_folder_steps:
  assumes "process_files_in_folder process_id input_folder output_folder processed_folder s = (r, s')"
  shows "\<exists>evs. steps s evs s' \<and> io_events evs"
proof (cases "makedirs_ok s output_folder \<and> makedirs_ok s processed_folder \<and>
    listdir s input_folder \<noteq> None")
  case False
  then obtain e where
    "process_files_in_folder process_id input_folder output_folder processed_folder s = (Inl e, s)"
    using process_files_in_folder_blocked [of s output_folder processed_folder input_folder process_id]
    by blast
  with assms have "s' = s" by simp
  then have "steps s [] s' \<and> io_events []" by (simp add: steps_def io_events_def)
  then show ?thesis by blast
next
  case True
  then obtain filenames where "listdir s input_folder = Some filenames" by blast
  with True assms
  have "process_filenames process_id input_folder output_folder processed_folder filenames s = (r, s')"
    by (simp add: process_files_in_folder_def makedirs_def)
  then show ?thesis by (rule process_filenames_steps)
qed

lemma no_run_record_in_io: "io_events evs \<Longrightarrow> filter is_run_record evs = []"
  by (induction evs)
     (auto simp: io_events_def is_run_record_def is_emit_def is_move_def split: event.splits)

lemma strftime_examples:
  "strftime \<lparr>year = 2024, month = 1, day = 2, hour = 3, minute = 4, second = 0\<rparr> =
     ''2024-01-02 03:04:00''"
  "strftime \<lparr>year = 2024, month = 1, day = 2, hour = 3, minute = 4, second = 1\<rparr> =
     ''2024-01-02 03:04:01''"
  by code_simp+

lemma strftime_steps_back:
  "strftime \<lparr>year = 2024, month = 11, day = 3, hour = 1, minute = 59, second = 59\<rparr> =
     ''2024-11-03 01:59:59''"
  "strftime \<lparr>year = 2024, month = 11, day = 3, hour = 1, minute = 0, second = 1\<rparr> =
     ''2024-11-03 01:00:01''"
  by code_simp+

lemma main_no_files:
  assumes "listdir s input_folder = Some []" "makedirs_ok s output_folder"
    "makedirs_ok s processed_folder"
  shows "main process_id input_folder output_folder processed_folder control_file s =
     update_control_file control_file process_id (strftime (clock s (ticks s)))
       (strftime (clock s (Suc (ticks s)))) ''Success''
       (s\<lparr>ticks := Suc (Suc (ticks s)),
          trace := trace s @ [Now (clock s (ticks s)), Now (clock s (Suc (ticks s)))]\<rparr>)"
  using assms
  by (simp add: main_def now_eq Let_def process_files_in_folder_def makedirs_def)

text \<open>The control number of a Document whose \<^verbatim>\<open>identificacion\<close> is missing, or is an object
  without \<^verbatim>\<open>numeroControl\<close>, is \<^verbatim>\<open>N/A\<close>, and its entries are processed with it.\<close>

lemma numero_control_of_absent:
  assumes "map_of entries ''identificacion'' = None \<or>
     (\<exists>d. map_of entries ''identificacion'' = Some (JObject d) \<and> map_of d ''numeroControl'' = None)"
  shows "numero_control_of (JObject entries) = Inr (JString ''N/A'') \<and>
     (documents s (path_join input_folder filename) = Some (Some (JObject entries)) \<longrightarrow>
        process_file process_id input_folder output_folder processed_folder filename s =
          (case process_entries process_id output_folder entries (JString ''N/A'') s of
             (Inl e, s') \<Rightarrow> (Inl e, s')
           | (Inr _, s') \<Rightarrow>
               move (path_join input_folder filename) (path_join processed_folder filename) s'))"
proof -
  from assms have "numero_control_of (JObject entries) = Inr (JString ''N/A'')"
    by (auto simp: numero_control_of_def get_def dict_get_def)
  then show ?thesis
    by (simp add: process_file_def items_of_def)
qed

section \<open>Claims about the Flattener\<close>

text \<open>
  C1. The spec has the Flattener recurse into every array element with \<open>[index]\<close> appended
  to the path, whatever the element is, so that \<^verbatim>\<open>{"a": [1,2]}\<close> flattens to
  \<^verbatim>\<open>{"a[0]": 1, "a[1]": 2}\<close>. The code calls \<^verbatim>\<open>flatten_json\<close> on the element itself, which
  asks it for \<^verbatim>\<open>.items()\<close>: on that input the call raises \<^verbatim>\<open>AttributeError\<close> and no mapping
  is returned, and likewise for an array inside an array. Elements that are objects are
  flattened under the indexed path.
\<close>

theorem flatten_json_array_of_scalars_raises:
  "flatten_json (JObject [(''a'', JArray [JInt 1, JInt 2])]) [] ''.'' = Inl AttributeError \<and>
   flatten_json (JObject [(''a'', JArray [JArray [JInt 1]])]) [] ''.'' = Inl AttributeError \<and>
   flatten_json (JObject [(''a'', JArray [JObject [(''b'', JInt 1)], JObject [(''b'', JInt 2)]])])
     [] ''.'' = Inr [(''a[0].b'', JInt 1), (''a[1].b'', JInt 2)]"
  by (simp add: dict_of_def setitem_def str_nat.simps char_of_48 char_of_49)

text \<open>
  C5. Flattening a mapping whose values are all scalars, with an empty prefix, returns the
  mapping unchanged (keys, values and order), whatever the separator.
\<close>

theorem flatten_json_flat_identity:
  assumes "distinct (map fst m)" and "\<forall>v \<in> snd ` set m. is_scalar v"
  shows "flatten_json (JObject m) [] separator = Inr m"
  using assms by (simp add: flatten_entries_flat dict_of_distinct)

theorem flatten_json_flat_identity_witness:
  "flatten_json (JObject [(''a'', JInt 1), (''b'', JString ''s''), (''c'', JNull)]) [] ''.'' =
     Inr [(''a'', JInt 1), (''b'', JString ''s''), (''c'', JNull)]"
  using flatten_json_flat_identity [of "[(''a'', JInt 1), (''b'', JString ''s''), (''c'', JNull)]" "''.''"]
  by (simp add: is_scalar_def)

text \<open>
  C10. Path strings are not injective and a later leaf silently replaces an earlier one.
  In \<^verbatim>\<open>{"a.b": 1, "a": {"b": 2}}\<close> the loop collects two pairs with the path \<^verbatim>\<open>a.b\<close>; the
  mapping returned has the single entry \<^verbatim>\<open>a.b\<close>, bound to 2, the value of the pair collected
  last. In general \<^verbatim>\<open>dict(items)\<close> holds every key once and binds it to the value of the last
  pair with that key.
\<close>

theorem flatten_json_paths_collide:
  "flatten_entries [(''a.b'', JInt 1), (''a'', JObject [(''b'', JInt 2)])] [] ''.'' =
     Inr [(''a.b'', JInt 1), (''a.b'', JInt 2)] \<and>
   flatten_json (JObject [(''a.b'', JInt 1), (''a'', JObject [(''b'', JInt 2)])]) [] ''.'' =
     Inr [(''a.b'', JInt 2)] \<and>
   (\<forall>items. distinct (map fst (dict_of items)) \<and> map_of (dict_of items) = map_of (rev items))"
proof -
  have "flatten_entries [(''a.b'', JInt 1), (''a'', JObject [(''b'', JInt 2)])] [] ''.'' =
     Inr [(''a.b'', JInt 1), (''a.b'', JInt 2)]"
    by (simp add: dict_of_def setitem_def)
  moreover have "flatten_json (JObject [(''a.b'', JInt 1), (''a'', JObject [(''b'', JInt 2)])]) [] ''.'' =
     Inr [(''a.b'', JInt 2)]"
    by (simp add: dict_of_def setitem_def)
  ultimately show ?thesis
    by (simp only: distinct_dict_of map_of_dict_of simp_thms)
qed

section \<open>Claims about the Tabular Appender\<close>

text \<open>
  C2. The call returns normally. Its column set is the record's keys together with
  \<^verbatim>\<open>numeroControl\<close> and \<^verbatim>\<open>processID\<close>, listed in ascending lexicographic order without
  repetition. When the file does not exist, it afterwards holds a header row of these
  columns followed by the row; when it exists, its rows are kept and the row alone is added,
  nothing of the old content being read. The row lists the values of the record (after the
  two fields are set) in the order of this call's columns.
\<close>

theorem append_flattened_to_csv_row:
  assumes "append_flattened_to_csv process_id data filename numero_control s = (r, s')"
  shows "\<exists>data'. r = Inr data' \<and>
     set (fieldnames_of data) = fst ` set data \<union> {''numeroControl'', ''processID''} \<and>
     set (fieldnames_of data) = fst ` set data' \<and>
     sorted (fieldnames_of data) \<and> distinct (fieldnames_of data) \<and>
     tables s' filename =
       Some ((case tables s filename of
                None \<Rightarrow> [map JString (fieldnames_of data)]
              | Some rows \<Rightarrow> rows) @
             [map (\<lambda>key. dict_get data' key (JString [])) (fieldnames_of data)])"
proof -
  from assms have r: "r = Inr (injected process_id data numero_control)"
    and s': "tables s' filename =
       Some ((case tables s filename of
                None \<Rightarrow> [map JString (fieldnames_of data)]
              | Some rows \<Rightarrow> rows) @ [row_of process_id data numero_control])"
    by (auto simp: append_flattened_to_csv_eq)
  have "set (fieldnames_of data) = fst ` set data \<union> {''numeroControl'', ''processID''}"
    by (auto simp: set_fieldnames_of)
  moreover have "set (fieldnames_of data) = fst ` set (injected process_id data numero_control)"
    by (auto simp: set_fieldnames_of injected_def keys_setitem)
  ultimately show ?thesis
    using r s' sorted_fieldnames_of [of data] distinct_fieldnames_of [of data]
    by (simp add: row_of_def)
qed

theorem append_flattened_to_csv_row_witness:
  "tables (snd (append_flattened_to_csv ''run-1'' [(''p'', JInt 1)] ''out/x.csv'' (JString ''N/A'')
      no_files)) ''out/x.csv'' =
     Some [[JString ''numeroControl'', JString ''p'', JString ''processID''],
           [JString ''N/A'', JInt 1, JString ''run-1'']] \<and>
   tables (snd (append_flattened_to_csv ''run-1'' [(''y'', JInt 2)] ''out/x.csv'' (JString ''N/A'')
      (no_files\<lparr>tables := [''out/x.csv'' \<mapsto> [[JString ''a'', JString ''b'']]]\<rparr>))) ''out/x.csv'' =
     Some [[JString ''a'', JString ''b''],
           [JString ''N/A'', JString ''run-1'', JInt 2]]"
proof -
  have f1: "fieldnames_of [(''p'', JInt 1)] = [''numeroControl'', ''p'', ''processID'']"
    by (simp add: fieldnames_of_def)
  have f2: "fieldnames_of [(''y'', JInt 2)] = [''numeroControl'', ''processID'', ''y'']"
    by (simp add: fieldnames_of_def)
  have a: "fst (append_flattened_to_csv ''run-1'' [(''p'', JInt 1)] ''out/x.csv'' (JString ''N/A'') no_files)
     = Inr [(''p'', JInt 1), (''numeroControl'', JString ''N/A''), (''processID'', JString ''run-1'')]"
    by (simp add: append_flattened_to_csv_eq injected_def setitem_def)
  have b: "fst (append_flattened_to_csv ''run-1'' [(''y'', JInt 2)] ''out/x.csv'' (JString ''N/A'')
      (no_files\<lparr>tables := [''out/x.csv'' \<mapsto> [[JString ''a'', JString ''b'']]]\<rparr>))
     = Inr [(''y'', JInt 2), (''numeroControl'', JString ''N/A''), (''processID'', JString ''run-1'')]"
    by (simp add: append_flattened_to_csv_eq injected_def setitem_def)
  have n: "tables no_files ''out/x.csv'' = None"
    by (simp add: no_files_def)
  from append_flattened_to_csv_row [OF prod.collapse [symmetric],
        of "''run-1''" "[(''p'', JInt 1)]" "''out/x.csv''" "JString ''N/A''" no_files]
  have "tables (snd (append_flattened_to_csv ''run-1'' [(''p'', JInt 1)] ''out/x.csv'' (JString ''N/A'')
      no_files)) ''out/x.csv'' =
     Some [[JString ''numeroControl'', JString ''p'', JString ''processID''],
           [JString ''N/A'', JInt 1, JString ''run-1'']]"
    by (auto simp: f1 a n dict_get_def)
  moreover
  from append_flattened_to_csv_row [OF prod.collapse [symmetric],
        of "''run-1''" "[(''y'', JInt 2)]" "''out/x.csv''" "JString ''N/A''"
           "no_files\<lparr>tables := [''out/x.csv'' \<mapsto> [[JString ''a'', JString ''b'']]]\<rparr>"]
  have "tables (snd (append_flattened_to_csv ''run-1'' [(''y'', JInt 2)] ''out/x.csv'' (JString ''N/A'')
      (no_files\<lparr>tables := [''out/x.csv'' \<mapsto> [[JString ''a'', JString ''b'']]]\<rparr>))) ''out/x.csv'' =
     Some [[JString ''a'', JString ''b''],
           [JString ''N/A'', JString ''run-1'', JInt 2]]"
    by (auto simp: f2 b dict_get_def)
  ultimately show ?thesis by simp
qed

text \<open>
  C4. Every row the Tabular Appender writes has a value in the column \<^verbatim>\<open>numeroControl\<close>,
  the control number it was called with, and a value in the column \<^verbatim>\<open>processID\<close>, the run
  identifier, whatever the record held; the row of the empty record is made of these two
  values alone. When the router is done with the entry \<^verbatim>\<open>cuerpo documento\<close>, the last row
  of that group's file is this boundary row.
\<close>

theorem persisted_row_has_injected_fields:
  "(append_flattened_to_csv process_id data filename numero_control s = (r, s') \<longrightarrow>
      (\<exists>rows row. tables s' filename = Some (rows @ [row]) \<and>
         length row = length (fieldnames_of data) \<and>
         map_of (zip (fieldnames_of data) row) ''numeroControl'' = Some numero_control \<and>
         map_of (zip (fieldnames_of data) row) ''processID'' = Some (JString process_id) \<and>
         (data = [] \<longrightarrow> row = [numero_control, JString process_id]))) \<and>
   (process_entry process_id output_folder ''cuerpo documento'' v numero_control s = (Inr (), s'') \<longrightarrow>
      (\<exists>rows. tables s'' (path_join output_folder ''cuerpo documento.csv'') =
         Some (rows @ [[numero_control, JString process_id]])))"
proof (intro conjI impI)
  assume a: "append_flattened_to_csv process_id data filename numero_control s = (r, s')"
  let ?row = "row_of process_id data numero_control"
  let ?rows = "case tables s filename of
                 None \<Rightarrow> [map JString (fieldnames_of data)]
               | Some rows \<Rightarrow> rows"
  from a have "tables s' filename = Some (?rows @ [?row])"
    by (auto simp: append_flattened_to_csv_eq)
  moreover have "length ?row = length (fieldnames_of data)"
    by (simp add: row_of_def)
  moreover have "map_of (zip (fieldnames_of data) ?row) ''numeroControl'' = Some numero_control"
    by (simp add: row_of_def map_of_zip_map set_fieldnames_of dict_get_def map_of_injected)
  moreover have "map_of (zip (fieldnames_of data) ?row) ''processID'' = Some (JString process_id)"
    by (simp add: row_of_def map_of_zip_map set_fieldnames_of dict_get_def map_of_injected)
  moreover have "data = [] \<longrightarrow> ?row = [numero_control, JString process_id]"
    by (simp add: row_of_empty)
  ultimately show "\<exists>rows row. tables s' filename = Some (rows @ [row]) \<and>
         length row = length (fieldnames_of data) \<and>
         map_of (zip (fieldnames_of data) row) ''numeroControl'' = Some numero_control \<and>
         map_of (zip (fieldnames_of data) row) ''processID'' = Some (JString process_id) \<and>
         (data = [] \<longrightarrow> row = [numero_control, JString process_id])"
    by blast
next
  assume "process_entry process_id output_folder ''cuerpo documento'' v numero_control s = (Inr (), s'')"
  then obtain s1 where
    "s'' = after_append process_id [] (path_join output_folder ''cuerpo documento.csv'') numero_control s1"
    by (auto simp: process_entry_def Let_def emit_eq split: prod.splits sum.splits)
  then show "\<exists>rows. tables s'' (path_join output_folder ''cuerpo documento.csv'') =
         Some (rows @ [[numero_control, JString process_id]])"
    by (simp add: tables_after_append row_of_empty)
qed

theorem persisted_row_has_injected_fields_witness:
  "(\<exists>rows. tables (snd (append_flattened_to_csv ''run-1'' [] ''out/cuerpo documento.csv''
       (JString ''N/A'') no_files)) ''out/cuerpo documento.csv'' =
     Some (rows @ [[JString ''N/A'', JString ''run-1'']])) \<and>
   (\<exists>rows. tables (snd (process_entry ''run-1'' ''out'' ''cuerpo documento''
       (JObject [(''a'', JInt 1)]) (JString ''N/A'') no_files)) ''out/cuerpo documento.csv'' =
     Some (rows @ [[JString ''N/A'', JString ''run-1'']]))"
proof -
  let ?a = "append_flattened_to_csv ''run-1'' [] ''out/cuerpo documento.csv'' (JString ''N/A'')
              no_files"
  let ?e = "process_entry ''run-1'' ''out'' ''cuerpo documento'' (JObject [(''a'', JInt 1)])
              (JString ''N/A'') no_files"
  note inst = persisted_row_has_injected_fields [where process_id = "''run-1''" and data = "[]"
      and filename = "''out/cuerpo documento.csv''" and numero_control = "JString ''N/A''"
      and s = no_files and r = "fst ?a" and s' = "snd ?a" and output_folder = "''out''"
      and v = "JObject [(''a'', JInt 1)]" and s'' = "snd ?e"]
  from inst [THEN conjunct1, THEN mp, OF prod.collapse [symmetric]]
  obtain rows row where "tables (snd ?a) ''out/cuerpo documento.csv'' = Some (rows @ [row])"
    and "row = [JString ''N/A'', JString ''run-1'']"
    by blast
  then have 1: "\<exists>rows. tables (snd ?a) ''out/cuerpo documento.csv'' =
     Some (rows @ [[JString ''N/A'', JString ''run-1'']])"
    by blast
  have p: "path_join ''out'' ''cuerpo documento.csv'' = ''out/cuerpo documento.csv''"
    by (simp add: path_join_def)
  have "fst ?e = Inr ()"
    by (simp add: process_entry_def flatten_and_append_def emit_eq Let_def)
  then have ok: "?e = (Inr (), snd ?e)"
    by (metis prod.collapse)
  from inst [THEN conjunct2, THEN mp, OF ok]
  have 2: "\<exists>rows. tables (snd ?e) ''out/cuerpo documento.csv'' =
     Some (rows @ [[JString ''N/A'', JString ''run-1'']])"
    by (simp only: p)
  from 1 2 show ?thesis by blast
qed

text \<open>
  C9. The spec has the record unchanged by the Tabular Appender. The code assigns
  \<^verbatim>\<open>data["numeroControl"]\<close> and \<^verbatim>\<open>data["processID"]\<close> on the caller's dict: the empty record
  comes back with two entries. What holds: after the call the record binds these two keys
  to the control number and the run identifier, and all its other entries are as they
  were, in the same order.
\<close>

theorem append_flattened_to_csv_sets_two_fields:
  "\<exists>data'. fst (append_flattened_to_csv process_id data filename numero_control s) = Inr data' \<and>
     map_of data' =
       (map_of data)(''numeroControl'' \<mapsto> numero_control, ''processID'' \<mapsto> JString process_id) \<and>
     filter (\<lambda>(k, v). k \<noteq> ''numeroControl'' \<and> k \<noteq> ''processID'') data' =
       filter (\<lambda>(k, v). k \<noteq> ''numeroControl'' \<and> k \<noteq> ''processID'') data"
  by (simp add: append_flattened_to_csv_eq map_of_injected) (simp add: injected_def filter_setitem)

text \<open>C9, the spec's sentence at the empty record: the dict the caller passed is no longer
  empty after the call.\<close>

theorem append_flattened_to_csv_mutates_record_counterexample:
  "fst (append_flattened_to_csv ''run-1'' [] ''out/x.csv'' (JString ''N/A'') no_files) =
     Inr [(''numeroControl'', JString ''N/A''), (''processID'', JString ''run-1'')] \<and>
   fst (append_flattened_to_csv ''run-1'' [] ''out/x.csv'' (JString ''N/A'') no_files) \<noteq> Inr []"
  by (simp add: append_flattened_to_csv_eq injected_def setitem_def)

section \<open>Claims about the Document Router\<close>

text \<open>
  C3. Whatever the folders and the file name, processing the Document
  \<^verbatim>\<open>{"x": {"p":1}, "y": [1,2], "z": "s"}\<close> succeeds and calls the Tabular Appender four times,
  in this order: once for group \<^verbatim>\<open>x\<close> with the flattening of \<^verbatim>\<open>{"p":1}\<close>, which is \<^verbatim>\<open>{"p":1}\<close>,
  twice for group \<^verbatim>\<open>y\<close> with \<^verbatim>\<open>{"y":1}\<close> and \<^verbatim>\<open>{"y":2}\<close>, once for group \<^verbatim>\<open>z\<close> with
  \<^verbatim>\<open>{"z":"s"}\<close>; then the file is moved. In general an element of a top-level array that is
  not an object is not flattened: it is passed on as the single-field record of its key.
\<close>

theorem router_groups_example:
  assumes "documents s (path_join input_folder filename) =
     Some (Some (JObject [(''x'', JObject [(''p'', JInt 1)]), (''y'', JArray [JInt 1, JInt 2]),
                          (''z'', JString ''s'')]))"
  shows "fst (process_file process_id input_folder output_folder processed_folder filename s) = Inr () \<and>
     trace (snd (process_file process_id input_folder output_folder processed_folder filename s)) =
       trace s @
       [Emit (path_join output_folder ''x.csv'') [(''p'', JInt 1)] (JString ''N/A''),
        Emit (path_join output_folder ''y.csv'') [(''y'', JInt 1)] (JString ''N/A''),
        Emit (path_join output_folder ''y.csv'') [(''y'', JInt 2)] (JString ''N/A''),
        Emit (path_join output_folder ''z.csv'') [(''z'', JString ''s'')] (JString ''N/A''),
        Move (path_join input_folder filename) (path_join processed_folder filename)] \<and>
     flatten_json (JObject [(''p'', JInt 1)]) [] ''.'' = Inr [(''p'', JInt 1)] \<and>
     (\<forall>key item output_file numero_control s0.
        \<not> is_object item \<longrightarrow>
        process_items process_id key [item] output_file numero_control s0 =
          emit process_id [(key, item)] output_file numero_control s0 \<and>
        trace (snd (process_items process_id key [item] output_file numero_control s0)) =
          trace s0 @ [Emit output_file [(key, item)] numero_control])"
proof -
  have items: "\<forall>key item output_file numero_control s0.
        \<not> is_object item \<longrightarrow>
        process_items process_id key [item] output_file numero_control s0 =
          emit process_id [(key, item)] output_file numero_control s0 \<and>
        trace (snd (process_items process_id key [item] output_file numero_control s0)) =
          trace s0 @ [Emit output_file [(key, item)] numero_control]"
    by (simp add: is_object_def emit_eq split: json.splits)
  have flat: "flatten_json (JObject [(''p'', JInt 1)]) [] ''.'' = Inr [(''p'', JInt 1)]"
    by (simp add: dict_of_def setitem_def)
  have "fst (process_file process_id input_folder output_folder processed_folder filename s) = Inr ()"
    using assms by (simp add: process_file_example [OF assms] move_eq)
  moreover
  have "trace (snd (process_file process_id input_folder output_folder processed_folder filename s)) =
       trace s @
       [Emit (path_join output_folder ''x.csv'') [(''p'', JInt 1)] (JString ''N/A''),
        Emit (path_join output_folder ''y.csv'') [(''y'', JInt 1)] (JString ''N/A''),
        Emit (path_join output_folder ''y.csv'') [(''y'', JInt 2)] (JString ''N/A''),
        Emit (path_join output_folder ''z.csv'') [(''z'', JString ''s'')] (JString ''N/A''),
        Move (path_join input_folder filename) (path_join processed_folder filename)]"
    using assms by (simp add: process_file_example [OF assms] move_eq)
  ultimately show ?thesis using flat items by blast
qed

theorem router_groups_example_witness:
  "tables (snd (process_file ''run-1'' ''in'' ''out'' ''done'' ''d.json''
     (no_files\<lparr>documents := [''in/d.json'' \<mapsto>
        Some (JObject [(''x'', JObject [(''p'', JInt 1)]), (''y'', JArray [JInt 1, JInt 2]),
                       (''z'', JString ''s'')])]\<rparr>))) ''out/y.csv'' =
     Some [[JString ''numeroControl'', JString ''processID'', JString ''y''],
           [JString ''N/A'', JString ''run-1'', JInt 1],
           [JString ''N/A'', JString ''run-1'', JInt 2]] \<and>
   trace (snd (process_file ''run-1'' ''in'' ''out'' ''done'' ''d.json''
     (no_files\<lparr>documents := [''in/d.json'' \<mapsto>
        Some (JObject [(''x'', JObject [(''p'', JInt 1)]), (''y'', JArray [JInt 1, JInt 2]),
                       (''z'', JString ''s'')])]\<rparr>))) =
     [Emit ''out/x.csv'' [(''p'', JInt 1)] (JString ''N/A''),
      Emit ''out/y.csv'' [(''y'', JInt 1)] (JString ''N/A''),
      Emit ''out/y.csv'' [(''y'', JInt 2)] (JString ''N/A''),
      Emit ''out/z.csv'' [(''z'', JString ''s'')] (JString ''N/A''),
      Move ''in/d.json'' ''done/d.json''] \<and>
   trace (snd (process_items ''run-1'' ''y'' [JInt 1] ''out/y.csv'' (JString ''N/A'') no_files)) =
     [Emit ''out/y.csv'' [(''y'', JInt 1)] (JString ''N/A'')]"
proof -
  let ?doc = "JObject [(''x'', JObject [(''p'', JInt 1)]), (''y'', JArray [JInt 1, JInt 2]),
                       (''z'', JString ''s'')]"
  let ?s = "no_files\<lparr>documents := [''in/d.json'' \<mapsto> Some ?doc]\<rparr>"
  have p: "path_join ''in'' ''d.json'' = ''in/d.json''" "path_join ''done'' ''d.json'' = ''done/d.json''"
    "path_join ''out'' ''x.csv'' = ''out/x.csv''" "path_join ''out'' ''y.csv'' = ''out/y.csv''"
    "path_join ''out'' ''z.csv'' = ''out/z.csv''"
    by (simp_all add: path_join_def)
  have d: "documents ?s (path_join ''in'' ''d.json'') = Some (Some ?doc)"
    by (simp add: p)
  have f: "fieldnames_of [(''y'', JInt 1)] = [''numeroControl'', ''processID'', ''y'']"
    by (simp add: fieldnames_of_def)
  have t: "tables (snd (process_file ''run-1'' ''in'' ''out'' ''done'' ''d.json'' ?s)) ''out/y.csv'' =
     Some [[JString ''numeroControl'', JString ''processID'', JString ''y''],
           [JString ''N/A'', JString ''run-1'', JInt 1],
           [JString ''N/A'', JString ''run-1'', JInt 2]]"
    by (simp add: process_file_example [OF d] p move_eq)
       (simp add: after_append_def no_files_def f row_of_def fieldnames_of_def injected_def
          setitem_def dict_get_def)
  have n: "trace no_files = []" "trace ?s = []" "\<not> is_object (JInt 1)"
    by (simp_all add: no_files_def is_object_def)
  note inst = router_groups_example [OF d, of "''run-1''" "''out''" "''done''"]
  from inst have
    "trace (snd (process_file ''run-1'' ''in'' ''out'' ''done'' ''d.json'' ?s)) =
       trace ?s @
       [Emit (path_join ''out'' ''x.csv'') [(''p'', JInt 1)] (JString ''N/A''),
        Emit (path_join ''out'' ''y.csv'') [(''y'', JInt 1)] (JString ''N/A''),
        Emit (path_join ''out'' ''y.csv'') [(''y'', JInt 2)] (JString ''N/A''),
        Emit (path_join ''out'' ''z.csv'') [(''z'', JString ''s'')] (JString ''N/A''),
        Move (path_join ''in'' ''d.json'') (path_join ''done'' ''d.json'')]"
    by blast
  then have a: "trace (snd (process_file ''run-1'' ''in'' ''out'' ''done'' ''d.json'' ?s)) =
     [Emit ''out/x.csv'' [(''p'', JInt 1)] (JString ''N/A''),
      Emit ''out/y.csv'' [(''y'', JInt 1)] (JString ''N/A''),
      Emit ''out/y.csv'' [(''y'', JInt 2)] (JString ''N/A''),
      Emit ''out/z.csv'' [(''z'', JString ''s'')] (JString ''N/A''),
      Move ''in/d.json'' ''done/d.json'']"
    by (simp only: p n append_Nil)
  from inst n have
    "trace (snd (process_items ''run-1'' ''y'' [JInt 1] ''out/y.csv'' (JString ''N/A'') no_files)) =
       trace no_files @ [Emit ''out/y.csv'' [(''y'', JInt 1)] (JString ''N/A'')]"
    by blast
  then have b:
    "trace (snd (process_items ''run-1'' ''y'' [JInt 1] ''out/y.csv'' (JString ''N/A'') no_files)) =
       [Emit ''out/y.csv'' [(''y'', JInt 1)] (JString ''N/A'')]"
    by (simp only: n append_Nil)
  from t a b show ?thesis by blast
qed



text \<open>
  C8. The spec has every Document without the path \<^verbatim>\<open>identificacion.numeroControl\<close> take the
  control number \<^verbatim>\<open>N/A\<close> and be processed. The code does so when \<^verbatim>\<open>identificacion\<close> is missing
  or is an object without \<^verbatim>\<open>numeroControl\<close>. When \<^verbatim>\<open>identificacion\<close> is present and is no
  object (a string, \<^verbatim>\<open>null\<close>), the Document has no such path either, but the second \<^verbatim>\<open>.get\<close> of
  the expression that supplies the default raises \<^verbatim>\<open>AttributeError\<close>: nothing of the Document
  is processed and the state is left as it was.
\<close>

theorem numero_control_of_non_object_raises:
  "numero_control_of (JObject [(''identificacion'', JString ''x'')]) = Inl AttributeError \<and>
   numero_control_of (JObject [(''identificacion'', JNull)]) = Inl AttributeError \<and>
   process_file ''run-1'' ''in'' ''out'' ''done'' ''d.json''
     (no_files\<lparr>documents := [''in/d.json'' \<mapsto> Some (JObject [(''identificacion'', JString ''x'')])]\<rparr>) =
     (Inl AttributeError,
      no_files\<lparr>documents := [''in/d.json'' \<mapsto> Some (JObject [(''identificacion'', JString ''x'')])]\<rparr>)"
  by (simp add: numero_control_of_def get_def dict_get_def process_file_def path_join_def)

section \<open>Claims about the Run Ledger\<close>

text \<open>
  C7. The spec has every invocation append exactly one Run Record whose start is at most
  its end. Two things in the code stand against it. The timestamps are readings of the
  wall clock, which may show an earlier time at the second reading. And
  \<^verbatim>\<open>update_control_file\<close> is called after the \<^verbatim>\<open>try\<close> statement: when the control file cannot
  be opened, \<^verbatim>\<open>main\<close> raises and no Run Record is written.

  What holds: every invocation reads the clock (\<open>t0\<close>), processes the folder, reads the
  clock again (\<open>t1\<close>) and then calls \<^verbatim>\<open>update_control_file\<close> once. Whatever the folder
  processing raises is caught and gives the status \<^verbatim>\<open>Failed\<close>, a folder that cannot be made
  or listed included; otherwise the status is \<^verbatim>\<open>Success\<close>. The folder processing adds calls
  of the Tabular Appender and moves only to the trace. When the control file can be opened,
  \<^verbatim>\<open>main\<close> returns normally and exactly one Run Record is written: it carries the run
  identifier, \<open>t0\<close> and \<open>t1\<close> formatted and the status, and it is the last row of the control
  file, after the header when the file was missing. When the control file cannot be opened,
  \<^verbatim>\<open>main\<close> raises \<^verbatim>\<open>OSError\<close> after the second reading and no tabular file is changed by the
  call of \<^verbatim>\<open>update_control_file\<close>. For readings that are dates with a four-digit year, both
  timestamps have the shape \<^verbatim>\<open>YYYY-MM-DD HH:MM:SS\<close>, and the start timestamp is at most the end
  timestamp, as strings, exactly when the second reading is not earlier than the first.
\<close>

theorem main_appends_one_run_record:
  assumes "main process_id input_folder output_folder processed_folder control_file s = (r, s')"
  shows "let t0 = clock s (ticks s); t1 = clock s (Suc (ticks s)) in
     \<exists>r2 s2 evs status.
       process_files_in_folder process_id input_folder output_folder processed_folder (snd (now s)) =
         (r2, s2) \<and>
       status = (case r2 of Inl _ \<Rightarrow> ''Failed'' | Inr _ \<Rightarrow> ''Success'') \<and>
       (\<not> makedirs_ok s output_folder \<or> \<not> makedirs_ok s processed_folder \<or>
        listdir s input_folder = None \<longrightarrow> status = ''Failed'') \<and>
       trace s2 = trace s @ [Now t0] @ evs \<and> io_events evs \<and>
       (openable s control_file \<longrightarrow>
          r = Inr () \<and>
          trace s' = trace s2 @
            [Now t1, RunRecord control_file process_id (strftime t0) (strftime t1) status] \<and>
          length (filter is_run_record (drop (length (trace s)) (trace s'))) = 1 \<and>
          tables s' control_file =
            Some ((case tables s2 control_file of
                     None \<Rightarrow> [map JString [''processID'', ''start_date'', ''end_date'', ''status'']]
                   | Some rows \<Rightarrow> rows) @
                  [[JString process_id, JString (strftime t0), JString (strftime t1),
                    JString status]])) \<and>
       (\<not> openable s control_file \<longrightarrow>
          r = Inl OSError \<and> trace s' = trace s2 @ [Now t1] \<and> tables s' = tables s2) \<and>
       (valid_datetime t0 \<and> valid_datetime t1 \<longrightarrow>
          timestamp_format (strftime t0) \<and> timestamp_format (strftime t1) \<and>
          (strftime t0 \<le> strftime t1 \<longleftrightarrow> dt_le t0 t1))"
proof -
  let ?t0 = "clock s (ticks s)"
  let ?t1 = "clock s (Suc (ticks s))"
  let ?s1 = "snd (now s)"
  obtain r2 s2 where p:
    "process_files_in_folder process_id input_folder output_folder processed_folder ?s1 = (r2, s2)"
    by (cases "process_files_in_folder process_id input_folder output_folder processed_folder ?s1")
  then obtain evs where st: "steps ?s1 evs s2" and io: "io_events evs"
    using process_files_in_folder_steps by blast
  let ?status = "case r2 of Inl _ \<Rightarrow> ''Failed'' | Inr _ \<Rightarrow> ''Success''"
  let ?rec = "RunRecord control_file process_id (strftime ?t0) (strftime ?t1) ?status"
  from st have c2: "clock s2 = clock s" "ticks s2 = Suc (ticks s)" "openable s2 = openable s"
    and t2: "trace s2 = trace s @ [Now ?t0] @ evs"
    by (simp_all add: steps_def now_eq)
  have blocked: "\<not> makedirs_ok s output_folder \<or> \<not> makedirs_ok s processed_folder \<or>
        listdir s input_folder = None \<longrightarrow> ?status = ''Failed''"
  proof
    assume "\<not> makedirs_ok s output_folder \<or> \<not> makedirs_ok s processed_folder \<or>
        listdir s input_folder = None"
    then have "\<not> makedirs_ok ?s1 output_folder \<or> \<not> makedirs_ok ?s1 processed_folder \<or>
        listdir ?s1 input_folder = None"
      by (simp add: now_eq)
    from process_files_in_folder_blocked [OF this, of process_id] p
    obtain e where "r2 = Inl e" by auto
    then show "?status = ''Failed''" by simp
  qed
  have m: "main process_id input_folder output_folder processed_folder control_file s =
      update_control_file control_file process_id (strftime ?t0) (strftime ?t1) ?status (snd (now s2))"
    using p c2 by (simp add: main_def now_eq Let_def split: sum.splits)
  have o3: "openable (snd (now s2)) = openable s"
    using c2 by (simp add: now_eq)
  have ok: "openable s control_file \<longrightarrow>
          r = Inr () \<and>
          trace s' = trace s2 @ [Now ?t1, ?rec] \<and>
          length (filter is_run_record (drop (length (trace s)) (trace s'))) = 1 \<and>
          tables s' control_file =
            Some ((case tables s2 control_file of
                     None \<Rightarrow> [map JString [''processID'', ''start_date'', ''end_date'', ''status'']]
                   | Some rows \<Rightarrow> rows) @
                  [[JString process_id, JString (strftime ?t0), JString (strftime ?t1),
                    JString ?status]])"
  proof
    assume "openable s control_file"
    then have o: "openable (snd (now s2)) control_file" by (simp add: o3)
    from m assms update_control_file_eq [OF o] have r: "r = Inr ()"
      and t': "trace s' = trace s2 @ [Now ?t1, ?rec]"
      and tab: "tables s' control_file =
         Some ((case tables s2 control_file of
                  None \<Rightarrow> [map JString [''processID'', ''start_date'', ''end_date'', ''status'']]
                | Some rows \<Rightarrow> rows) @
               [[JString process_id, JString (strftime ?t0), JString (strftime ?t1), JString ?status]])"
      using c2 by (auto simp: now_eq)
    have "drop (length (trace s)) (trace s') = [Now ?t0] @ evs @ [Now ?t1, ?rec]"
      by (simp add: t' t2)
    then have "length (filter is_run_record (drop (length (trace s)) (trace s'))) = 1"
      using no_run_record_in_io [OF io] by (simp add: is_run_record_def)
    with r t' tab show "r = Inr () \<and>
          trace s' = trace s2 @ [Now ?t1, ?rec] \<and>
          length (filter is_run_record (drop (length (trace s)) (trace s'))) = 1 \<and>
          tables s' control_file =
            Some ((case tables s2 control_file of
                     None \<Rightarrow> [map JString [''processID'', ''start_date'', ''end_date'', ''status'']]
                   | Some rows \<Rightarrow> rows) @
                  [[JString process_id, JString (strftime ?t0), JString (strftime ?t1),
                    JString ?status]])"
      by blast
  qed
  have no: "\<not> openable s control_file \<longrightarrow>
          r = Inl OSError \<and> trace s' = trace s2 @ [Now ?t1] \<and> tables s' = tables s2"
  proof
    assume "\<not> openable s control_file"
    then have o: "\<not> openable (snd (now s2)) control_file" by (simp add: o3)
    from m assms update_control_file_blocked [OF o]
    show "r = Inl OSError \<and> trace s' = trace s2 @ [Now ?t1] \<and> tables s' = tables s2"
      using c2 by (auto simp: now_eq)
  qed
  have fmt: "valid_datetime ?t0 \<and> valid_datetime ?t1 \<longrightarrow>
          timestamp_format (strftime ?t0) \<and> timestamp_format (strftime ?t1) \<and>
          (strftime ?t0 \<le> strftime ?t1 \<longleftrightarrow> dt_le ?t0 ?t1)"
    by (simp add: strftime_format strftime_le)
  have same: "?status = ?status" ..
  show ?thesis
    unfolding Let_def
    by (insert p same blocked t2 io ok no fmt, rule exI [of _ r2], rule exI [of _ s2],
        rule exI [of _ evs], rule exI [of _ "?status"], intro conjI, assumption+)
qed

theorem main_appends_one_run_record_witness:
  "trace (snd (main ''run-1'' ''in'' ''out'' ''done'' ''out/control.csv''
     (no_files\<lparr>documents := [''in/bad.json'' \<mapsto> None],
               listdir := (\<lambda>_. Some [''bad.json''])\<rparr>))) =
     [Now \<lparr>year = 2024, month = 1, day = 2, hour = 3, minute = 4, second = 0\<rparr>,
      Now \<lparr>year = 2024, month = 1, day = 2, hour = 3, minute = 4, second = 1\<rparr>,
      RunRecord ''out/control.csv'' ''run-1'' ''2024-01-02 03:04:00'' ''2024-01-02 03:04:01''
        ''Failed''] \<and>
   tables (snd (main ''run-1'' ''in'' ''out'' ''done'' ''out/control.csv''
     (no_files\<lparr>documents := [''in/bad.json'' \<mapsto> None],
               listdir := (\<lambda>_. Some [''bad.json''])\<rparr>)))
     ''out/control.csv'' =
     Some [[JString ''processID'', JString ''start_date'', JString ''end_date'', JString ''status''],
           [JString ''run-1'', JString ''2024-01-02 03:04:00'', JString ''2024-01-02 03:04:01'',
            JString ''Failed'']] \<and>
   trace (snd (main ''run-1'' ''in'' ''out'' ''done'' ''out/control.csv''
     (no_files\<lparr>listdir := (\<lambda>_. None)\<rparr>))) =
     [Now \<lparr>year = 2024, month = 1, day = 2, hour = 3, minute = 4, second = 0\<rparr>,
      Now \<lparr>year = 2024, month = 1, day = 2, hour = 3, minute = 4, second = 1\<rparr>,
      RunRecord ''out/control.csv'' ''run-1'' ''2024-01-02 03:04:00'' ''2024-01-02 03:04:01''
        ''Failed''] \<and>
   trace (snd (main ''run-1'' ''in'' ''out'' ''done'' ''out/control.csv''
     (no_files\<lparr>documents := [''in/d.json'' \<mapsto> Some (JObject [(''z'', JString ''s'')])],
               listdir := (\<lambda>_. Some [''notes.txt'', ''d.json''])\<rparr>))) =
     [Now \<lparr>year = 2024, month = 1, day = 2, hour = 3, minute = 4, second = 0\<rparr>,
      Emit ''out/z.csv'' [(''z'', JString ''s'')] (JString ''N/A''),
      Move ''in/d.json'' ''done/d.json'',
      Now \<lparr>year = 2024, month = 1, day = 2, hour = 3, minute = 4, second = 1\<rparr>,
      RunRecord ''out/control.csv'' ''run-1'' ''2024-01-02 03:04:00'' ''2024-01-02 03:04:01''
        ''Success''] \<and>
   timestamp_format ''2024-01-02 03:04:00'' \<and> timestamp_format ''2024-01-02 03:04:01'' \<and>
   ''2024-01-02 03:04:00'' \<le> ''2024-01-02 03:04:01''"
proof -
  let ?bad = "no_files\<lparr>documents := [''in/bad.json'' \<mapsto> None],
               listdir := (\<lambda>_. Some [''bad.json''])\<rparr>"
  let ?gone = "no_files\<lparr>listdir := (\<lambda>_. None)\<rparr>"
  let ?good = "no_files\<lparr>documents := [''in/d.json'' \<mapsto> Some (JObject [(''z'', JString ''s'')])],
               listdir := (\<lambda>_. Some [''notes.txt'', ''d.json''])\<rparr>"
  let ?t0 = "\<lparr>year = 2024, month = 1, day = 2, hour = 3, minute = 4, second = 0\<rparr>"
  let ?t1 = "\<lparr>year = 2024, month = 1, day = 2, hour = 3, minute = 4, second = 1\<rparr>"
  have c: "clock ?bad (ticks ?bad) = ?t0" "clock ?bad (Suc (ticks ?bad)) = ?t1"
    "clock ?good (ticks ?good) = ?t0" "clock ?good (Suc (ticks ?good)) = ?t1"
    "clock ?gone (ticks ?gone) = ?t0" "clock ?gone (Suc (ticks ?gone)) = ?t1"
    by (simp_all add: no_files_def)
  have o: "openable ?bad ''out/control.csv''" "openable ?good ''out/control.csv''"
    "openable ?gone ''out/control.csv''" "listdir ?gone ''in'' = None"
    by (simp_all add: no_files_def)
  have v: "valid_datetime ?t0" "valid_datetime ?t1" "dt_le ?t0 ?t1"
    by (simp_all add: valid_datetime_def dt_le_def)
  have pb: "process_files_in_folder ''run-1'' ''in'' ''out'' ''done'' (snd (now ?bad)) =
      (Inl JSONDecodeError, snd (now ?bad))"
    by (simp add: process_files_in_folder_def makedirs_def now_eq endswith_def process_file_def
        path_join_def Let_def no_files_def)
  have nb: "trace (snd (now ?bad)) = [Now ?t0]" "tables (snd (now ?bad)) ''out/control.csv'' = None"
    by (simp_all add: now_eq no_files_def)
  have pn: "process_files_in_folder ''run-1'' ''in'' ''out'' ''done'' (snd (now ?gone)) =
      (Inl FileNotFoundError, snd (now ?gone))"
    by (simp add: process_files_in_folder_def makedirs_def now_eq no_files_def)
  have nn: "trace (snd (now ?gone)) = [Now ?t0]"
    by (simp add: now_eq no_files_def)
  have pg: "process_files_in_folder ''run-1'' ''in'' ''out'' ''done'' (snd (now ?good)) =
      (Inr (), snd (process_files_in_folder ''run-1'' ''in'' ''out'' ''done'' (snd (now ?good))))"
    and tg: "trace (snd (process_files_in_folder ''run-1'' ''in'' ''out'' ''done'' (snd (now ?good)))) =
      [Now ?t0, Emit ''out/z.csv'' [(''z'', JString ''s'')] (JString ''N/A''),
       Move ''in/d.json'' ''done/d.json'']"
    by (simp_all add: process_files_in_folder_def makedirs_def now_eq endswith_def process_file_def
        path_join_def Let_def no_files_def numero_control_of_def get_def dict_get_def items_of_def
        process_entry_def emit_eq move_eq)
  let ?cf = "''out/control.csv''"
  note bad = main_appends_one_run_record [where process_id = "''run-1''" and input_folder = "''in''"
      and output_folder = "''out''" and processed_folder = "''done''" and control_file = ?cf
      and s = ?bad, OF prod.collapse [symmetric], unfolded Let_def c]
  obtain r2 :: "error + unit" and s2 :: state and status where b:
    "process_files_in_folder ''run-1'' ''in'' ''out'' ''done'' (snd (now ?bad)) = (r2, s2)"
    "status = (case r2 of Inl _ \<Rightarrow> ''Failed'' | Inr _ \<Rightarrow> ''Success'')"
    "openable ?bad ?cf \<longrightarrow>
       fst (main ''run-1'' ''in'' ''out'' ''done'' ?cf ?bad) = Inr () \<and>
       trace (snd (main ''run-1'' ''in'' ''out'' ''done'' ?cf ?bad)) = trace s2 @
         [Now ?t1, RunRecord ?cf ''run-1'' (strftime ?t0) (strftime ?t1) status] \<and>
       length (filter is_run_record (drop (length (trace ?bad))
         (trace (snd (main ''run-1'' ''in'' ''out'' ''done'' ?cf ?bad))))) = 1 \<and>
       tables (snd (main ''run-1'' ''in'' ''out'' ''done'' ?cf ?bad)) ?cf =
         Some ((case tables s2 ?cf of
                  None \<Rightarrow> [map JString [''processID'', ''start_date'', ''end_date'', ''status'']]
                | Some rows \<Rightarrow> rows) @
               [[JString ''run-1'', JString (strftime ?t0), JString (strftime ?t1), JString status]])"
    "valid_datetime ?t0 \<and> valid_datetime ?t1 \<longrightarrow>
       timestamp_format (strftime ?t0) \<and> timestamp_format (strftime ?t1) \<and>
       (strftime ?t0 \<le> strftime ?t1 \<longleftrightarrow> dt_le ?t0 ?t1)"
    by (insert bad, elim exE conjE) (rule that; assumption)
  from b(1) pb have e: "r2 = Inl JSONDecodeError" "s2 = snd (now ?bad)" by simp_all
  from b(2) e have st: "status = ''Failed''" by simp
  from b(3) o(1) have
    "trace (snd (main ''run-1'' ''in'' ''out'' ''done'' ?cf ?bad)) = trace s2 @
         [Now ?t1, RunRecord ?cf ''run-1'' (strftime ?t0) (strftime ?t1) status]"
    and "tables (snd (main ''run-1'' ''in'' ''out'' ''done'' ?cf ?bad)) ?cf =
         Some ((case tables s2 ?cf of
                  None \<Rightarrow> [map JString [''processID'', ''start_date'', ''end_date'', ''status'']]
                | Some rows \<Rightarrow> rows) @
               [[JString ''run-1'', JString (strftime ?t0), JString (strftime ?t1), JString status]])"
    by blast+
  then have 1:
    "trace (snd (main ''run-1'' ''in'' ''out'' ''done'' ?cf ?bad)) =
       [Now ?t0, Now ?t1,
        RunRecord ?cf ''run-1'' ''2024-01-02 03:04:00'' ''2024-01-02 03:04:01'' ''Failed'']"
    and 2:
    "tables (snd (main ''run-1'' ''in'' ''out'' ''done'' ?cf ?bad)) ?cf =
     Some [[JString ''processID'', JString ''start_date'', JString ''end_date'', JString ''status''],
           [JString ''run-1'', JString ''2024-01-02 03:04:00'', JString ''2024-01-02 03:04:01'',
            JString ''Failed'']]"
    by (simp_all only: e nb st strftime_examples append_Cons append_Nil option.case list.map)
  from b(4) v have "timestamp_format (strftime ?t0) \<and> timestamp_format (strftime ?t1) \<and>
       strftime ?t0 \<le> strftime ?t1"
    by blast
  then have 5: "timestamp_format ''2024-01-02 03:04:00'' \<and>
      timestamp_format ''2024-01-02 03:04:01'' \<and>
      ''2024-01-02 03:04:00'' \<le> ''2024-01-02 03:04:01''"
    by (simp only: strftime_examples)
  note gone = main_appends_one_run_record [where process_id = "''run-1''" and input_folder = "''in''"
      and output_folder = "''out''" and processed_folder = "''done''" and control_file = ?cf
      and s = ?gone, OF prod.collapse [symmetric], unfolded Let_def c]
  obtain r3 :: "error + unit" and s3 :: state and evs3 status3 where g:
    "\<not> makedirs_ok ?gone ''out'' \<or> \<not> makedirs_ok ?gone ''done'' \<or> listdir ?gone ''in'' = None \<longrightarrow>
       status3 = ''Failed''"
    "trace s3 = trace ?gone @ [Now ?t0] @ evs3"
    "process_files_in_folder ''run-1'' ''in'' ''out'' ''done'' (snd (now ?gone)) = (r3, s3)"
    "openable ?gone ?cf \<longrightarrow>
       fst (main ''run-1'' ''in'' ''out'' ''done'' ?cf ?gone) = Inr () \<and>
       trace (snd (main ''run-1'' ''in'' ''out'' ''done'' ?cf ?gone)) = trace s3 @
         [Now ?t1, RunRecord ?cf ''run-1'' (strftime ?t0) (strftime ?t1) status3] \<and>
       length (filter is_run_record (drop (length (trace ?gone))
         (trace (snd (main ''run-1'' ''in'' ''out'' ''done'' ?cf ?gone))))) = 1 \<and>
       tables (snd (main ''run-1'' ''in'' ''out'' ''done'' ?cf ?gone)) ?cf =
         Some ((case tables s3 ?cf of
                  None \<Rightarrow> [map JString [''processID'', ''start_date'', ''end_date'', ''status'']]
                | Some rows \<Rightarrow> rows) @
               [[JString ''run-1'', JString (strftime ?t0), JString (strftime ?t1), JString status3]])"
    by (insert gone, elim exE conjE) (rule that; assumption)
  from g(1) o(4) have st3: "status3 = ''Failed''" by blast
  from g(3) pn have e3: "s3 = snd (now ?gone)" by simp
  from g(4) o(3) have
    "trace (snd (main ''run-1'' ''in'' ''out'' ''done'' ?cf ?gone)) = trace s3 @
         [Now ?t1, RunRecord ?cf ''run-1'' (strftime ?t0) (strftime ?t1) status3]"
    by blast
  then have 3:
    "trace (snd (main ''run-1'' ''in'' ''out'' ''done'' ?cf ?gone)) =
       [Now ?t0, Now ?t1,
        RunRecord ?cf ''run-1'' ''2024-01-02 03:04:00'' ''2024-01-02 03:04:01'' ''Failed'']"
    by (simp only: e3 nn st3 strftime_examples append_Cons append_Nil)
  note good = main_appends_one_run_record [where process_id = "''run-1''" and input_folder = "''in''"
      and output_folder = "''out''" and processed_folder = "''done''" and control_file = ?cf
      and s = ?good, OF prod.collapse [symmetric], unfolded Let_def c]
  obtain r4 :: "error + unit" and s4 :: state and status4 where h:
    "process_files_in_folder ''run-1'' ''in'' ''out'' ''done'' (snd (now ?good)) = (r4, s4)"
    "status4 = (case r4 of Inl _ \<Rightarrow> ''Failed'' | Inr _ \<Rightarrow> ''Success'')"
    "openable ?good ?cf \<longrightarrow>
       fst (main ''run-1'' ''in'' ''out'' ''done'' ?cf ?good) = Inr () \<and>
       trace (snd (main ''run-1'' ''in'' ''out'' ''done'' ?cf ?good)) = trace s4 @
         [Now ?t1, RunRecord ?cf ''run-1'' (strftime ?t0) (strftime ?t1) status4] \<and>
       length (filter is_run_record (drop (length (trace ?good))
         (trace (snd (main ''run-1'' ''in'' ''out'' ''done'' ?cf ?good))))) = 1 \<and>
       tables (snd (main ''run-1'' ''in'' ''out'' ''done'' ?cf ?good)) ?cf =
         Some ((case tables s4 ?cf of
                  None \<Rightarrow> [map JString [''processID'', ''start_date'', ''end_date'', ''status'']]
                | Some rows \<Rightarrow> rows) @
               [[JString ''run-1'', JString (strftime ?t0), JString (strftime ?t1), JString status4]])"
    by (insert good, elim exE conjE) (rule that; assumption)
  from h(1) pg have e4: "r4 = Inr ()"
    "s4 = snd (process_files_in_folder ''run-1'' ''in'' ''out'' ''done'' (snd (now ?good)))"
    by simp_all
  from h(2) e4 have st4: "status4 = ''Success''" by simp
  from h(3) o(2) have
    "trace (snd (main ''run-1'' ''in'' ''out'' ''done'' ?cf ?good)) = trace s4 @
         [Now ?t1, RunRecord ?cf ''run-1'' (strftime ?t0) (strftime ?t1) status4]"
    by blast
  then have 4:
    "trace (snd (main ''run-1'' ''in'' ''out'' ''done'' ?cf ?good)) =
     [Now ?t0, Emit ''out/z.csv'' [(''z'', JString ''s'')] (JString ''N/A''),
      Move ''in/d.json'' ''done/d.json'', Now ?t1,
      RunRecord ?cf ''run-1'' ''2024-01-02 03:04:00'' ''2024-01-02 03:04:01'' ''Success'']"
    by (simp only: e4 tg st4 strftime_examples append_Cons append_Nil)
  from 1 2 3 4 5 show ?thesis by (intro conjI) blast+
qed

text \<open>C7, the spec's sentence at a clock that is set back by an hour between the two
  readings, where the Run Record's start is later than its end; and at a control file
  that cannot be opened, where \<^verbatim>\<open>main\<close> raises and the trace holds no Run Record.\<close>

theorem main_run_record_counterexample:
  "trace (snd (main ''run-1'' ''in'' ''out'' ''done'' ''out/control.csv''
     (no_files\<lparr>clock := clock_steps_back\<rparr>))) =
     [Now \<lparr>year = 2024, month = 11, day = 3, hour = 1, minute = 59, second = 59\<rparr>,
      Now \<lparr>year = 2024, month = 11, day = 3, hour = 1, minute = 0, second = 1\<rparr>,
      RunRecord ''out/control.csv'' ''run-1'' ''2024-11-03 01:59:59'' ''2024-11-03 01:00:01''
        ''Success''] \<and>
   \<not> ''2024-11-03 01:59:59'' \<le> ''2024-11-03 01:00:01'' \<and>
   fst (main ''run-1'' ''in'' ''out'' ''done'' ''out/control.csv''
     (no_files\<lparr>openable := never\<rparr>)) = Inl OSError \<and>
   filter is_run_record (trace (snd (main ''run-1'' ''in'' ''out'' ''done'' ''out/control.csv''
     (no_files\<lparr>openable := never\<rparr>)))) = [] \<and>
   tables (snd (main ''run-1'' ''in'' ''out'' ''done'' ''out/control.csv''
     (no_files\<lparr>openable := never\<rparr>))) ''out/control.csv'' = None"
proof -
  let ?late = "no_files\<lparr>clock := clock_steps_back\<rparr>"
  let ?shut = "no_files\<lparr>openable := never\<rparr>"
  let ?t0 = "\<lparr>year = 2024, month = 11, day = 3, hour = 1, minute = 59, second = 59\<rparr>"
  let ?t1 = "\<lparr>year = 2024, month = 11, day = 3, hour = 1, minute = 0, second = 1\<rparr>"
  have c: "clock ?late (ticks ?late) = ?t0" "clock ?late (Suc (ticks ?late)) = ?t1"
    "trace ?late = []" "openable ?late ''out/control.csv''" "tables ?late ''out/control.csv'' = None"
    by (simp_all add: no_files_def clock_steps_back_def)
  have a: "listdir ?late ''in'' = Some []" "makedirs_ok ?late ''out''" "makedirs_ok ?late ''done''"
    "listdir ?shut ''in'' = Some []" "makedirs_ok ?shut ''out''" "makedirs_ok ?shut ''done''"
    by (simp_all add: no_files_def)
  let ?late2 = "?late\<lparr>ticks := Suc (Suc (ticks ?late)), trace := [Now ?t0, Now ?t1]\<rparr>"
  have m: "main ''run-1'' ''in'' ''out'' ''done'' ''out/control.csv'' ?late =
      update_control_file ''out/control.csv'' ''run-1'' (strftime ?t0) (strftime ?t1) ''Success''
        ?late2"
    using main_no_files [OF a(1) a(2) a(3), of "''run-1''" "''out/control.csv''"]
    by (simp only: c append_Nil)
  have o: "openable ?late2 ''out/control.csv''"
    by (simp add: no_files_def)
  have "trace (snd (main ''run-1'' ''in'' ''out'' ''done'' ''out/control.csv'' ?late)) =
     [Now ?t0, Now ?t1,
      RunRecord ''out/control.csv'' ''run-1'' (strftime ?t0) (strftime ?t1) ''Success'']"
    unfolding m update_control_file_eq [OF o] by simp
  then have 1: "trace (snd (main ''run-1'' ''in'' ''out'' ''done'' ''out/control.csv'' ?late)) =
     [Now ?t0, Now ?t1,
      RunRecord ''out/control.csv'' ''run-1'' ''2024-11-03 01:59:59'' ''2024-11-03 01:00:01''
        ''Success'']"
    by (simp only: strftime_steps_back)
  have 2: "\<not> ''2024-11-03 01:59:59'' \<le> ''2024-11-03 01:00:01''"
    by simp
  let ?shut2 = "?shut\<lparr>ticks := Suc (Suc (ticks ?shut)),
      trace := trace ?shut @ [Now (clock ?shut (ticks ?shut)), Now (clock ?shut (Suc (ticks ?shut)))]\<rparr>"
  have n: "\<not> openable ?shut2 ''out/control.csv''"
    by (simp add: no_files_def never_def)
  have m': "main ''run-1'' ''in'' ''out'' ''done'' ''out/control.csv'' ?shut = (Inl OSError, ?shut2)"
    unfolding main_no_files [OF a(4) a(5) a(6)] by (rule update_control_file_blocked [OF n])
  have 3: "fst (main ''run-1'' ''in'' ''out'' ''done'' ''out/control.csv'' ?shut) = Inl OSError"
    and 4: "filter is_run_record (trace (snd (main ''run-1'' ''in'' ''out'' ''done''
       ''out/control.csv'' ?shut))) = []"
    and 5: "tables (snd (main ''run-1'' ''in'' ''out'' ''done'' ''out/control.csv'' ?shut))
       ''out/control.csv'' = None"
    unfolding m' by (simp_all add: no_files_def is_run_record_def)
  from 1 2 3 4 5 show ?thesis by (intro conjI)
qed

end
